theory Spec2Isabelle
  imports Complex_Main
begin

section \<open>Q-learning of active Ising spins in one dimension (Spin_Example/paper_example.ipynb)\<close>

text \<open>
  The notebook is a linear script over module-level variables.  The constants of its
  parameter cell are the record \<open>config\<close>; the variables that the cells assign
  (\<open>key\<close>, \<open>positions\<close>, \<open>spins\<close>, \<open>velocities\<close>, \<open>state\<close>) are the record
  \<open>globals\<close>, passed to every function that reads them and returned updated by the
  loop.  A function parameter that shadows a module-level name is abbreviated
  (\<open>pos\<close>, \<open>sp\<close>, \<open>vel\<close>); the first argument \<open>J\<close> of a function holds the
  library functions it calls.  Arrays are lists.  A float32 value is the real number it
  denotes, and the arithmetic of the notebook on positions rounds every result to
  float32 (\<open>fl32\<close>); int32 spins are \<open>int\<close> (the spins are \<open>\<plusminus>1\<close> and their sums
  stay far from the int32 range).  Exceptions raised by the libraries are values of type
  \<open>error\<close>; the notebook itself raises none and catches none.
\<close>

subsection \<open>Float32 arithmetic\<close>

text \<open>
  \<open>rne\<close> rounds to the nearest integer, a tie to the even one.  For \<open>x > 0\<close>,
  \<open>binade n x\<close> is the largest power of two not above \<open>x\<close>, found in at most \<open>n\<close>
  halvings or doublings.  \<open>fl32\<close> rounds a real to the nearest float32 (24 significant
  bits, ties to even, subnormal below \<open>2^-126\<close>): the result of one float32 operation
  is \<open>fl32\<close> of the exact result.  Results of magnitude \<open>2^128\<close> and more, which
  float32 turns into infinities, are outside the model.
\<close>

definition rne :: "real \<Rightarrow> int" where
  "rne x =
     (let n = \<lfloor>x\<rfloor>; r = x - of_int n
      in if r < 1 / 2 then n else if 1 / 2 < r then n + 1 else if even n then n else n + 1)"

fun binade :: "nat \<Rightarrow> real \<Rightarrow> real" where
  "binade 0 x = 1"
| "binade (Suc n) x =
     (if 2 \<le> x then 2 * binade n (x / 2)
      else if x < 1 then binade n (2 * x) / 2
      else 1)"

definition fl32 :: "real \<Rightarrow> real" where
  "fl32 x =
     (if x = 0 then 0
      else
        let b = max (binade 300 \<bar>x\<bar>) (1 / 2 ^ 126);
            ulp = b / 2 ^ 23
        in of_int (rne (x / ulp)) * ulp)"

subsection \<open>Errors and array access\<close>

datatype error = IndexError | ShapeError | ValueError

definition ebind :: "error + 'a \<Rightarrow> ('a \<Rightarrow> error + 'b) \<Rightarrow> error + 'b" where
  "ebind m f = (case m of Inl e \<Rightarrow> Inl e | Inr x \<Rightarrow> f x)"

text \<open>
  \<open>xs[i]\<close> on a JAX array with a non-negative integer \<open>i\<close>: an index past the end is
  clamped to the last element; an axis of size 0 cannot be indexed.
\<close>

definition at_get :: "'a list \<Rightarrow> nat \<Rightarrow> error + 'a" where
  "at_get xs i = (if xs = [] then Inl IndexError else Inr (xs ! min i (length xs - 1)))"

text \<open>
  \<open>xs.at[i].set(v)\<close> returns a new array; an index past the end is dropped, which is
  what \<open>xs[i := v]\<close> does.

  \<open>xs[mask]\<close> with a boolean mask: the entries of \<open>xs\<close> where the mask is true, in
  order; a mask of another length is rejected.
\<close>

definition mask_select :: "'a list \<Rightarrow> bool list \<Rightarrow> error + 'a list" where
  "mask_select xs bs =
     (if length bs \<noteq> length xs then Inl IndexError
      else Inr (map fst (filter snd (zip xs bs))))"

text \<open>\<open>jnp.argmin\<close>: the first index of a minimal entry; an empty array is rejected.\<close>

fun argmin_index :: "real list \<Rightarrow> nat" where
  "argmin_index [] = 0"
| "argmin_index [x] = 0"
| "argmin_index (x # y # ys) =
     (let j = argmin_index (y # ys) in if (y # ys) ! j < x then Suc j else 0)"

definition argmin :: "real list \<Rightarrow> error + nat" where
  "argmin xs = (if xs = [] then Inl ValueError else Inr (argmin_index xs))"

text \<open>\<open>jnp.mean\<close>; it is only reached on non-empty arrays here.\<close>

definition mean :: "real list \<Rightarrow> real" where
  "mean xs = sum_list xs / real (length xs)"

subsection \<open>The libraries the notebook calls\<close>

text \<open>
  JAX's random keys are pairs of 32-bit unsigned integers, which the notebook only
  passes on (they are kept as naturals); every draw is a function of the key it is
  given.  The functions of \<open>jax.random\<close>, \<open>jax.grad\<close>, the Flax module
  \<open>QNetwork\<close> (dense layer, relu, dense layer with \<open>num_actions\<close> outputs) and the
  Optax optimiser are parameters of the model, collected in the record \<open>jax\<close>:
  \<open>'p\<close> is the type of the network parameters, \<open>'o\<close> that of the optimiser state.
\<close>

type_synonym prng_key = "nat \<times> nat"

record ('p, 'o) gradient_transformation =
  init_fn :: "'p \<Rightarrow> 'o"
  update_fn :: "'p \<Rightarrow> 'o \<Rightarrow> 'p \<Rightarrow> 'p \<times> 'o"

record ('p, 'o) jax =
  PRNGKey :: "int \<Rightarrow> prng_key"
  random_split :: "prng_key \<Rightarrow> prng_key \<times> prng_key"
  random_uniform :: "prng_key \<Rightarrow> real"
  random_uniform_array :: "prng_key \<Rightarrow> nat \<Rightarrow> real \<Rightarrow> real \<Rightarrow> real list"
  random_choice :: "prng_key \<Rightarrow> int list \<Rightarrow> nat \<Rightarrow> int list"
  grad :: "('p \<Rightarrow> real) \<Rightarrow> 'p \<Rightarrow> 'p"
  QNetwork_init :: "int \<Rightarrow> prng_key \<Rightarrow> 'p"
  QNetwork_apply :: "int \<Rightarrow> 'p \<Rightarrow> int list \<Rightarrow> real list"
  adam :: "real \<Rightarrow> ('p, 'o) gradient_transformation"
  apply_updates :: "'p \<Rightarrow> 'p \<Rightarrow> 'p"

text \<open>
  Flax's \<open>TrainState\<close>: \<open>create\<close> starts at step 0 with the optimiser state of the
  initial parameters; \<open>apply_gradients\<close> asks the optimiser for the updates, applies
  them and replaces \<open>step\<close>, \<open>params\<close> and \<open>opt_state\<close>.
\<close>

record ('p, 'o) train_state =
  step :: nat
  apply_fn :: "'p \<Rightarrow> int list \<Rightarrow> real list"
  params :: 'p
  tx :: "('p, 'o) gradient_transformation"
  opt_state :: 'o

definition apply_gradients ::
  "('p, 'o) jax \<Rightarrow> ('p, 'o) train_state \<Rightarrow> 'p \<Rightarrow> ('p, 'o) train_state" where
  "apply_gradients J st grads =
     (let (updates, new_opt_state) = update_fn (tx st) grads (opt_state st) (params st);
          new_params = apply_updates J (params st) updates
      in st\<lparr>step := step st + 1, params := new_params, opt_state := new_opt_state\<rparr>)"

subsection \<open>Parameters and module-level variables\<close>

record config =
  N :: int
  L :: real
  delta_x :: real
  v1 :: real
  v2 :: real
  alpha :: real
  epsilon :: real
  delta_t :: real
  num_actions :: int

text \<open>
  A real-valued field holds the float32 value that the Python float of the parameter cell
  becomes when it meets a float32 array, which is where the notebook uses it.  The values
  of the parameter cell:
\<close>

definition paper_config :: config where
  "paper_config =
     \<lparr>N = 10, L = 10, delta_x = 1, v1 = fl32 (1 / 10), v2 = 1, alpha = fl32 (1 / 10),
      epsilon = fl32 (1 / 10), delta_t = fl32 (1 / 10), num_actions = 2\<rparr>"

record ('p, 'o) globals =
  key :: prng_key
  positions :: "real list"
  spins :: "int list"
  velocities :: "real list"
  state :: "('p, 'o) train_state"

subsection \<open>The functions of the notebook\<close>

text \<open>
  The initialisation of the network fails when its last layer has no output, that is for
  \<open>num_actions \<le> 0\<close>.
\<close>

definition create_train_state ::
  "('p, 'o) jax \<Rightarrow> config \<Rightarrow> prng_key \<Rightarrow> real \<Rightarrow> error + ('p, 'o) train_state" where
  "create_train_state J cfg k learning_rate =
     (if num_actions cfg \<le> 0 then Inl ShapeError
      else
        let ps = QNetwork_init J (num_actions cfg) k;
            t = adam J learning_rate
        in Inr \<lparr>step = 0, apply_fn = QNetwork_apply J (num_actions cfg), params = ps, tx = t,
                 opt_state = init_fn t ps\<rparr>)"

text \<open>
  \<open>positions[i] - delta_x\<close> and \<open>positions[i] + delta_x\<close> are float32 operations; the
  comparisons of the mask are exact.
\<close>

definition get_neighbors :: "config \<Rightarrow> nat \<Rightarrow> real list \<Rightarrow> int list \<Rightarrow> error + int list" where
  "get_neighbors cfg i pos sp =
     ebind (at_get pos i) (\<lambda>p.
       let left = fl32 (p - delta_x cfg);
           right = fl32 (p + delta_x cfg);
           mask_i = map (\<lambda>x. left \<le> x \<and> x \<le> right) pos
       in mask_select sp mask_i)"

text \<open>
  \<open>update_spin\<close> reads the module-level \<open>key\<close> and \<open>positions\<close>; the key is the one
  left by the single \<open>jax.random.split\<close> of the set-up and is not replaced here.
\<close>

definition update_spin ::
  "('p, 'o) jax \<Rightarrow> config \<Rightarrow> ('p, 'o) globals \<Rightarrow> nat \<Rightarrow> int list \<Rightarrow> ('p, 'o) train_state \<Rightarrow> real
     \<Rightarrow> error + int" where
  "update_spin J cfg G i sp Q eps =
     (if random_uniform J (key G) < eps then
        ebind (at_get sp i) (\<lambda>s. Inr (- s))
      else
        ebind (at_get sp i) (\<lambda>s.
        ebind (get_neighbors cfg i (positions G) sp) (\<lambda>nb.
          let st = [s, sgn (sum_list nb)];
              q_values = apply_fn Q (params Q) st
          in ebind (argmin q_values) (\<lambda>action.
               Inr (if action = 0 then s else - s)))))"

text \<open>
  \<open>positions[i] + velocities[i] * spins[i] * delta_t\<close>: the spin is converted to
  float32, and each of the two products and the sum is a float32 operation.
\<close>

definition update_position ::
  "config \<Rightarrow> nat \<Rightarrow> real list \<Rightarrow> int list \<Rightarrow> real list \<Rightarrow> error + real" where
  "update_position cfg i pos sp vel =
     ebind (at_get pos i) (\<lambda>p.
     ebind (at_get vel i) (\<lambda>v.
     ebind (at_get sp i) (\<lambda>s.
       Inr (fl32 (p + fl32 (fl32 (v * fl32 (real_of_int s)) * delta_t cfg))))))"

text \<open>\<open>cost_function\<close> reads the module-level \<open>state\<close>, \<open>epsilon\<close> and \<open>velocities\<close>.\<close>

definition cost_function ::
  "('p, 'o) jax \<Rightarrow> config \<Rightarrow> ('p, 'o) globals \<Rightarrow> nat \<Rightarrow> real list \<Rightarrow> int list \<Rightarrow> error + int" where
  "cost_function J cfg G i pos sp =
     ebind (get_neighbors cfg i pos sp) (\<lambda>neighbors_before.
     ebind (update_spin J cfg G i sp (state G) (epsilon cfg)) (\<lambda>new_spin.
     ebind (update_position cfg i pos sp (velocities G)) (\<lambda>new_position.
     ebind (get_neighbors cfg i (pos[i := new_position]) (sp[i := new_spin])) (\<lambda>neighbors_after.
       Inr (if length neighbors_after < length neighbors_before then 1 else 0)))))"

text \<open>
  \<open>update_Q\<close> reads the module-level \<open>spins\<close> and \<open>positions\<close>.  Its first four
  lines, which build the target, are \<open>update_Q_target\<close>: the result holds the locals
  \<open>state_input\<close>, \<open>q_values\<close>, \<open>action\<close> and \<open>target\<close>.
\<close>

definition update_Q_target ::
  "config \<Rightarrow> ('p, 'o) globals \<Rightarrow> nat \<Rightarrow> ('p, 'o) train_state \<Rightarrow> int
     \<Rightarrow> error + (int list \<times> real list \<times> nat \<times> real list)" where
  "update_Q_target cfg G i st cost =
     ebind (at_get (spins G) i) (\<lambda>s.
     ebind (get_neighbors cfg i (positions G) (spins G)) (\<lambda>nb.
       let state_input = [s, sgn (sum_list nb)];
           q_values = apply_fn st (params st) state_input
       in ebind (argmin q_values) (\<lambda>action.
            Inr (state_input, q_values, action, q_values[action := real_of_int cost]))))"

definition squared_error :: "real list \<Rightarrow> real list \<Rightarrow> real" where
  "squared_error ys target = mean (map2 (\<lambda>y t. (y - t)\<^sup>2) ys target)"

definition update_Q ::
  "('p, 'o) jax \<Rightarrow> config \<Rightarrow> ('p, 'o) globals \<Rightarrow> nat \<Rightarrow> ('p, 'o) train_state \<Rightarrow> int
     \<Rightarrow> error + ('p, 'o) train_state" where
  "update_Q J cfg G i st cost =
     ebind (update_Q_target cfg G i st cost) (\<lambda>(state_input, q_values, action, target).
       let loss = squared_error q_values target;
           grads = grad J (\<lambda>ps. squared_error (apply_fn st ps state_input) target) (params st)
       in Inr (apply_gradients J st grads))"

subsection \<open>The simulation loop\<close>

text \<open>A \<open>for\<close> loop over a list of indices, stopping at the first exception.\<close>

fun for_each :: "('s \<Rightarrow> nat \<Rightarrow> error + 's) \<Rightarrow> nat list \<Rightarrow> 's \<Rightarrow> error + 's" where
  "for_each body [] s = Inr s"
| "for_each body (x # xs) s = ebind (body s x) (for_each body xs)"

text \<open>The body of the inner loop: the four assignments for particle \<open>i\<close>.\<close>

definition particle_update ::
  "('p, 'o) jax \<Rightarrow> config \<Rightarrow> ('p, 'o) globals \<Rightarrow> nat \<Rightarrow> error + ('p, 'o) globals" where
  "particle_update J cfg G i =
     ebind (cost_function J cfg G i (positions G) (spins G)) (\<lambda>cost.
     ebind (update_Q J cfg G i (state G) cost) (\<lambda>st'.
       let G1 = G\<lparr>state := st'\<rparr> in
     ebind (update_spin J cfg G1 i (spins G1) (state G1) (epsilon cfg)) (\<lambda>s'.
       let G2 = G1\<lparr>spins := (spins G1)[i := s']\<rparr> in
     ebind (update_position cfg i (positions G2) (spins G2) (velocities G2)) (\<lambda>p'.
       Inr (G2\<lparr>positions := (positions G2)[i := p']\<rparr>)))))"

definition sweep :: "('p, 'o) jax \<Rightarrow> config \<Rightarrow> ('p, 'o) globals \<Rightarrow> error + ('p, 'o) globals" where
  "sweep J cfg G = for_each (particle_update J cfg) [0..<nat (N cfg)] G"

text \<open>The outer loop; the notebook runs \<open>num_steps = 100\<close> sweeps.\<close>

definition simulation_loop ::
  "('p, 'o) jax \<Rightarrow> config \<Rightarrow> nat \<Rightarrow> ('p, 'o) globals \<Rightarrow> error + ('p, 'o) globals" where
  "simulation_loop J cfg num_steps G = for_each (\<lambda>G' t. sweep J cfg G') [0..<num_steps] G"

text \<open>
  The set-up cells; the notebook's seed is 0.  A negative \<open>N\<close> is not a shape, and the
  first array draw rejects it.  The three arrays are drawn from the same key, which is
  then split once; the second half initialises the network, which may fail.
\<close>

definition initialise :: "('p, 'o) jax \<Rightarrow> config \<Rightarrow> int \<Rightarrow> error + ('p, 'o) globals" where
  "initialise J cfg seed =
     (let key0 = PRNGKey J seed in
      if N cfg < 0 then Inl ShapeError
      else
        let positions0 = random_uniform_array J key0 (nat (N cfg)) 0 (L cfg);
            spins0 = random_choice J key0 [- 1, 1] (nat (N cfg));
            velocities0 = random_uniform_array J key0 (nat (N cfg)) (v1 cfg) (v2 cfg);
            (key1, subkey) = random_split J key0
        in ebind (create_train_state J cfg subkey (alpha cfg)) (\<lambda>state0.
             Inr \<lparr>key = key1, positions = positions0, spins = spins0,
                  velocities = velocities0, state = state0\<rparr>))"

definition run :: "('p, 'o) jax \<Rightarrow> config \<Rightarrow> int \<Rightarrow> nat \<Rightarrow> error + ('p, 'o) globals" where
  "run J cfg seed num_steps = ebind (initialise J cfg seed) (simulation_loop J cfg num_steps)"

subsection \<open>Predicates and measures used in the statements\<close>

text \<open>
  The states the loop works on: the three arrays have \<open>N\<close> entries and the
  Q-function returns at least one estimate.
\<close>

definition well_formed :: "config \<Rightarrow> ('p, 'o) globals \<Rightarrow> bool" where
  "well_formed cfg G \<longleftrightarrow>
     length (positions G) = nat (N cfg) \<and> length (spins G) = nat (N cfg) \<and>
     length (velocities G) = nat (N cfg) \<and> (\<forall>ps x. apply_fn (state G) ps x \<noteq> [])"

text \<open>
  What the set-up needs of the libraries: array draws have the requested length and the
  network has \<open>num_actions\<close> outputs.
\<close>

definition library_contract :: "('p, 'o) jax \<Rightarrow> config \<Rightarrow> bool" where
  "library_contract J cfg \<longleftrightarrow>
     (\<forall>k n lo hi. length (random_uniform_array J k n lo hi) = n) \<and>
     (\<forall>k xs n. length (random_choice J k xs n) = n) \<and>
     (\<forall>ps x. length (QNetwork_apply J (num_actions cfg) ps x) = nat (num_actions cfg))"

text \<open>
  The number of positions between the float32 end points \<open>fl32 (x - delta_x)\<close> and
  \<open>fl32 (x + delta_x)\<close>, both included: the length of the neighbour list of a particle
  at \<open>x\<close>.
\<close>

definition interval_count :: "config \<Rightarrow> real \<Rightarrow> real list \<Rightarrow> nat" where
  "interval_count cfg x pos =
     length (filter (\<lambda>y. fl32 (x - delta_x cfg) \<le> y \<and> y \<le> fl32 (x + delta_x cfg)) pos)"

text \<open>
  The neighbour query in the words of the specification: the spins of the particles whose
  position lies in the closed interval of radius \<open>delta_x\<close> around the position of
  particle \<open>i\<close>, the end points being the exact difference and sum.
\<close>

definition closed_interval_neighbors :: "config \<Rightarrow> nat \<Rightarrow> real list \<Rightarrow> int list \<Rightarrow> int list" where
  "closed_interval_neighbors cfg i pos sp =
     map (\<lambda>j. sp ! j)
       (filter (\<lambda>j. pos ! i - delta_x cfg \<le> pos ! j \<and> pos ! j \<le> pos ! i + delta_x cfg)
          [0..<length pos])"

text \<open>
  The largest float32 value, and the reals of at most this magnitude: a float32 result
  that \<open>fl32\<close> places there is finite.
\<close>

definition float32_max :: real where
  "float32_max = 2 ^ 128 - 2 ^ 104"

definition finite32 :: "real \<Rightarrow> bool" where
  "finite32 x \<longleftrightarrow> \<bar>x\<bar> \<le> float32_max"

text \<open>
  The particle indices in the order in which the two nested loops visit them, and the
  state reached after the first \<open>k\<close> particle updates of a run.
\<close>

definition schedule :: "config \<Rightarrow> nat \<Rightarrow> nat list" where
  "schedule cfg num_steps = concat (replicate num_steps [0..<nat (N cfg)])"

definition run_prefix ::
  "('p, 'o) jax \<Rightarrow> config \<Rightarrow> nat \<Rightarrow> nat \<Rightarrow> ('p, 'o) globals \<Rightarrow> error + ('p, 'o) globals" where
  "run_prefix J cfg num_steps k G = for_each (particle_update J cfg) (take k (schedule cfg num_steps)) G"

text \<open>
  The parameter domain of the specification (\<open>N > 0\<close>, \<open>v1 < v2\<close>, \<open>alpha\<close> and
  \<open>epsilon\<close> in \<open>[0, 1]\<close>, \<open>delta_t > 0\<close>).  The notebook does not test it; the
  predicate only serves to state the claim about rejected configurations.
\<close>

definition documented_domain :: "config \<Rightarrow> bool" where
  "documented_domain cfg \<longleftrightarrow>
     0 < N cfg \<and> v1 cfg < v2 cfg \<and> 0 \<le> alpha cfg \<and> alpha cfg \<le> 1 \<and>
     0 \<le> epsilon cfg \<and> epsilon cfg \<le> 1 \<and> 0 < delta_t cfg"

subsection \<open>A tabular instance of the libraries and small states\<close>

text \<open>
  A concrete library for evaluating the notebook's functions: the key of a seed is the
  seed modulo \<open>2^32\<close>, the scalar draw is \<open>1/2\<close>, arrays are evenly spaced, the
  Q-function is a table of two estimates that ignores the descriptor, \<open>grad\<close> is the
  central difference (exact on the quadratic loss) and the optimiser is plain gradient
  descent, which stands in for Adam.
\<close>

definition table_jax :: "(real \<times> real, unit) jax" where
  "table_jax =
     \<lparr>PRNGKey = (\<lambda>seed. (0, nat (seed mod 4294967296))),
      random_split = (\<lambda>(a, b). ((a, 2 * b + 1), (a, 2 * b + 2))),
      random_uniform = (\<lambda>k. 1 / 2),
      random_uniform_array = (\<lambda>k n lo hi. map (\<lambda>j. lo + (hi - lo) * real j / real n) [0..<n]),
      random_choice = (\<lambda>k xs n. map (\<lambda>j. xs ! (j mod length xs)) [0..<n]),
      grad = (\<lambda>f (a, b). ((f (a + 1, b) - f (a - 1, b)) / 2, (f (a, b + 1) - f (a, b - 1)) / 2)),
      QNetwork_init = (\<lambda>n k. (0, 0)),
      QNetwork_apply = (\<lambda>n (a, b) x. [a, b]),
      adam = (\<lambda>lr. \<lparr>init_fn = (\<lambda>ps. ()), update_fn = (\<lambda>(ga, gb) os ps. ((- lr * ga, - lr * gb), ()))\<rparr>),
      apply_updates = (\<lambda>(a, b) (ua, ub). (a + ua, b + ub))\<rparr>"

text \<open>
  A configuration with two particles whose real-valued parameters are float32 values
  with short binary expansions (\<open>1/8\<close> where the notebook has 0.1), and variants of
  it: exploration rate 1, a negative time step, a negative interaction range, a negative
  particle count, a network without outputs.  \<open>rounding_config\<close> has the notebook's own
  values, with two particles and exploration rate 1.
\<close>

definition two_config :: config where
  "two_config =
     \<lparr>N = 2, L = 10, delta_x = 1, v1 = 1 / 8, v2 = 1, alpha = 1 / 8, epsilon = 1 / 8,
      delta_t = 1 / 8, num_actions = 2\<rparr>"

definition exploring_config :: config where
  "exploring_config = two_config\<lparr>epsilon := 1\<rparr>"

definition negative_step_config :: config where
  "negative_step_config = two_config\<lparr>delta_t := - (1 / 8)\<rparr>"

definition isolated_config :: config where
  "isolated_config = two_config\<lparr>delta_x := - 1\<rparr>"

definition negative_count_config :: config where
  "negative_count_config = two_config\<lparr>N := - 1\<rparr>"

definition no_action_config :: config where
  "no_action_config = two_config\<lparr>num_actions := 0\<rparr>"

definition rounding_config :: config where
  "rounding_config = paper_config\<lparr>N := 2, epsilon := 1\<rparr>"

text \<open>
  Two particles one interaction range apart, with given table estimates; and two
  particles at the float32 values of 1.1 and 0.1, where the float32 sum \<open>0.1f + 1\<close> is
  \<open>1.1f\<close>, above the exact sum.
\<close>

definition table_state :: "real \<times> real \<Rightarrow> (real \<times> real, unit) train_state" where
  "table_state ps =
     \<lparr>step = 0, apply_fn = QNetwork_apply table_jax (num_actions two_config), params = ps,
      tx = adam table_jax (alpha two_config), opt_state = ()\<rparr>"

definition two_particles :: "real \<times> real \<Rightarrow> (real \<times> real, unit) globals" where
  "two_particles ps =
     \<lparr>key = (0, 1), positions = [0, 1], spins = [- 1, 1], velocities = [1 / 2, 1 / 2],
      state = table_state ps\<rparr>"

definition rounding_particles :: "(real \<times> real, unit) globals" where
  "rounding_particles =
     \<lparr>key = (0, 1), positions = [fl32 (11 / 10), fl32 (1 / 10)], spins = [1, - 1],
      velocities = [1 / 2, 1 / 2], state = table_state (0, 1)\<rparr>"

text \<open>
  The state that the set-up produces for two particles; the states after the update of
  particle 0 and after the whole first sweep under \<open>two_config\<close> (greedy selection);
  and the state after the update of particle 0 under \<open>exploring_config\<close>.
\<close>

definition two_initial :: "(real \<times> real, unit) globals" where
  "two_initial =
     \<lparr>key = (0, 1), positions = [0, 5], spins = [- 1, 1], velocities = [1 / 8, 9 / 16],
      state = table_state (0, 0)\<rparr>"

definition two_after_first :: "(real \<times> real, unit) globals" where
  "two_after_first =
     two_initial\<lparr>state := (state two_initial)\<lparr>step := 1, params := (0, 0)\<rparr>,
                 spins := [- 1, 1], positions := [- (1 / 64), 5]\<rparr>"

definition two_after_sweep :: "(real \<times> real, unit) globals" where
  "two_after_sweep =
     two_initial\<lparr>state := (state two_initial)\<lparr>step := 2, params := (0, 0)\<rparr>,
                 spins := [- 1, 1], positions := [- (1 / 64), 649 / 128]\<rparr>"

definition two_after_flip :: "(real \<times> real, unit) globals" where
  "two_after_flip =
     two_initial\<lparr>state := (state two_initial)\<lparr>step := 1, params := (0, 0)\<rparr>,
                 spins := [1, 1], positions := [1 / 64, 5]\<rparr>"

section \<open>Lemmas\<close>

subsection \<open>Float32 rounding\<close>

lemma binade_numeral:
  "binade (numeral k) x =
     (if 2 \<le> x then 2 * binade (pred_numeral k) (x / 2)
      else if x < 1 then binade (pred_numeral k) (2 * x) / 2
      else 1)"
  by (simp add: numeral_eq_Suc)

lemmas fl32_eval = fl32_def rne_def binade_numeral Let_def

lemma rne_of_int: "rne (of_int m) = m"
  by (simp add: rne_def)

lemma rne_floor_or_succ: "rne x = \<lfloor>x\<rfloor> \<or> rne x = \<lfloor>x\<rfloor> + 1"
  by (simp add: rne_def Let_def)

lemma rne_mono:
  assumes "x \<le> y"
  shows "rne x \<le> rne y"
proof (cases "\<lfloor>x\<rfloor> = \<lfloor>y\<rfloor>")
  case True
  define n where "n = \<lfloor>y\<rfloor>"
  define r where "r = x - of_int n"
  define s where "s = y - of_int n"
  from assms have rs: "r \<le> s" by (simp add: r_def s_def)
  have "rne x = (if r < 1 / 2 then n else if 1 / 2 < r then n + 1 else if even n then n else n + 1)"
    using True by (simp add: rne_def Let_def r_def n_def)
  moreover have "rne y = (if s < 1 / 2 then n else if 1 / 2 < s then n + 1 else if even n then n else n + 1)"
    by (simp add: rne_def Let_def s_def n_def)
  ultimately show ?thesis using rs by (simp split: if_splits)
next
  case False
  from assms have "\<lfloor>x\<rfloor> \<le> \<lfloor>y\<rfloor>" by (rule floor_mono)
  with False have "\<lfloor>x\<rfloor> < \<lfloor>y\<rfloor>" by simp
  moreover have "rne x \<le> \<lfloor>x\<rfloor> + 1" and "\<lfloor>y\<rfloor> \<le> rne y"
    using rne_floor_or_succ [of x] rne_floor_or_succ [of y] by auto
  ultimately show ?thesis by linarith
qed

lemma rne_uminus: "rne (- x) = - rne x"
proof (cases "x = of_int \<lfloor>x\<rfloor>")
  case True
  then have "rne (- x) = rne (of_int (- \<lfloor>x\<rfloor>))" and "rne x = rne (of_int \<lfloor>x\<rfloor>)"
    by simp_all
  then show ?thesis by (simp only: rne_of_int)
next
  case False
  define n where "n = \<lfloor>x\<rfloor>"
  define r where "r = x - of_int n"
  from False have "\<lceil>x\<rceil> = n + 1" by (simp add: ceiling_altdef n_def)
  then have fl: "\<lfloor>- x\<rfloor> = - n - 1" by (simp add: ceiling_def)
  have "of_int \<lfloor>x\<rfloor> \<le> x" and "x < of_int \<lfloor>x\<rfloor> + 1"
    by linarith+
  with False have r: "0 < r" "r < 1"
    unfolding r_def n_def by linarith+
  have x: "rne x = (if r < 1 / 2 then n else if 1 / 2 < r then n + 1 else if even n then n else n + 1)"
    by (simp add: rne_def Let_def r_def n_def)
  have "- x - of_int (- n - 1) = 1 - r" by (simp add: r_def)
  then have mx: "rne (- x) = (if 1 - r < 1 / 2 then - n - 1 else if 1 / 2 < 1 - r then - n
      else if even (- n - 1) then - n - 1 else - n)"
    by (simp add: rne_def Let_def fl)
  have par: "even (- n - 1) \<longleftrightarrow> odd n" by simp
  show ?thesis
    unfolding x mx par using r by (simp split: if_splits)
qed

lemma binade_pos: "0 < binade n x"
  by (induction n arbitrary: x) simp_all

lemma binade_ge_one: "1 \<le> x \<Longrightarrow> 1 \<le> binade n x"
proof (induction n arbitrary: x)
  case 0
  show ?case by simp
next
  case (Suc n)
  show ?case
  proof (cases "2 \<le> x")
    case True
    then have "1 \<le> binade n (x / 2)" by (intro Suc.IH) simp
    with True show ?thesis by simp
  next
    case False
    with Suc.prems show ?thesis by simp
  qed
qed

lemma binade_le_one: "x < 2 \<Longrightarrow> binade n x \<le> 1"
proof (induction n arbitrary: x)
  case 0
  show ?case by simp
next
  case (Suc n)
  show ?case
  proof (cases "x < 1")
    case True
    then have "binade n (2 * x) \<le> 1" by (intro Suc.IH) simp
    with True show ?thesis by simp
  next
    case False
    with Suc.prems show ?thesis by simp
  qed
qed

lemma binade_mono: "x \<le> y \<Longrightarrow> binade n x \<le> binade n y"
proof (induction n arbitrary: x y)
  case 0
  show ?case by simp
next
  case (Suc n)
  consider "2 \<le> x" | "1 \<le> x" "x < 2" "2 \<le> y" | "1 \<le> x" "y < 2"
    | "x < 1" "2 \<le> y" | "x < 1" "1 \<le> y" "y < 2" | "y < 1"
    using Suc.prems by linarith
  then show ?case
  proof cases
    case 1
    with Suc.prems have "2 \<le> y" and "binade n (x / 2) \<le> binade n (y / 2)"
      by (simp_all add: Suc.IH)
    with 1 show ?thesis by simp
  next
    case 2
    then have "1 \<le> binade n (y / 2)" by (intro binade_ge_one) simp
    with 2 show ?thesis by simp
  next
    case 3
    with Suc.prems show ?thesis by simp
  next
    case 4
    then have "1 \<le> binade n (y / 2)" by (intro binade_ge_one) simp
    moreover from 4 have "binade n (2 * x) \<le> 1" by (intro binade_le_one) simp
    ultimately show ?thesis using 4 by simp
  next
    case 5
    then have "binade n (2 * x) \<le> 1" by (intro binade_le_one) simp
    with 5 show ?thesis by simp
  next
    case 6
    with Suc.prems have "x < 1" and "binade n (2 * x) \<le> binade n (2 * y)"
      by (simp_all add: Suc.IH)
    with 6 show ?thesis by simp
  qed
qed

lemma binade_scaled: "\<exists>k. binade n x * 2 ^ n = 2 ^ k"
proof (induction n arbitrary: x)
  case 0
  show ?case by (simp add: exI [of _ 0])
next
  case (Suc n)
  consider "2 \<le> x" | "x < 1" | "1 \<le> x" "x < 2" by linarith
  then show ?case
  proof cases
    case 1
    from Suc.IH [of "x / 2"] obtain k where "binade n (x / 2) * 2 ^ n = 2 ^ k" ..
    then have "binade (Suc n) x * 2 ^ Suc n = 2 ^ (k + 2)"
      using 1 by (simp add: power_add)
    then show ?thesis ..
  next
    case 2
    from Suc.IH [of "2 * x"] obtain k where "binade n (2 * x) * 2 ^ n = 2 ^ k" ..
    then have "binade (Suc n) x * 2 ^ Suc n = 2 ^ k"
      using 2 by simp
    then show ?thesis ..
  next
    case 3
    then have "binade (Suc n) x * 2 ^ Suc n = 2 ^ Suc n" by simp
    then show ?thesis ..
  qed
qed

lemma binade_lower_ge_one: "1 \<le> y \<Longrightarrow> binade n y \<le> y"
proof (induction n arbitrary: y)
  case 0
  then show ?case by simp
next
  case (Suc n)
  show ?case
  proof (cases "2 \<le> y")
    case True
    then have "binade n (y / 2) \<le> y / 2" by (intro Suc.IH) simp
    with True show ?thesis by simp
  next
    case False
    with Suc.prems show ?thesis by simp
  qed
qed

lemma binade_lower: "0 < y \<Longrightarrow> binade n y \<le> y \<or> binade n y = 1 / 2 ^ n"
proof (induction n arbitrary: y)
  case 0
  show ?case by simp
next
  case (Suc n)
  consider "1 \<le> y" | "y < 1" "1 \<le> 2 * y" | "2 * y < 1" by linarith
  then show ?case
  proof cases
    case 1
    then show ?thesis by (simp add: binade_lower_ge_one del: binade.simps)
  next
    case 2
    then have "binade n (2 * y) \<le> 2 * y" by (intro binade_lower_ge_one)
    with 2 show ?thesis by simp
  next
    case 3
    from Suc.prems have "0 < 2 * y" by simp
    from Suc.IH [OF this] 3 show ?thesis by auto
  qed
qed

lemma binade_upper: "x < 2 ^ Suc n \<Longrightarrow> x < 2 * binade n x"
proof (induction n arbitrary: x)
  case 0
  then show ?case by simp
next
  case (Suc n)
  consider "2 \<le> x" | "x < 1" | "1 \<le> x" "x < 2" by linarith
  then show ?case
  proof cases
    case 1
    from Suc.prems have "x / 2 < 2 ^ Suc n" by simp
    then have "x / 2 < 2 * binade n (x / 2)" by (rule Suc.IH)
    with 1 show ?thesis by simp
  next
    case 2
    have "(2::real) \<le> 2 ^ Suc n" by simp
    with 2 have "2 * x < 2 ^ Suc n" by linarith
    then have "2 * x < 2 * binade n (2 * x)" by (rule Suc.IH)
    with 2 show ?thesis by simp
  next
    case 3
    then show ?thesis by simp
  qed
qed

lemma binade_le_power: "binade n x \<le> 2 ^ n"
proof (induction n arbitrary: x)
  case 0
  show ?case by simp
next
  case (Suc n)
  have "binade n (x / 2) \<le> 2 ^ n" and "binade n (2 * x) \<le> 2 ^ n"
    by (rule Suc.IH)+
  moreover have "(1::real) \<le> 2 ^ n" by simp
  ultimately have "2 * binade n (x / 2) \<le> 2 * 2 ^ n"
    and "binade n (2 * x) / 2 \<le> 2 * 2 ^ n" and "(1::real) \<le> 2 * 2 ^ n"
    by linarith+
  then show ?case by simp
qed

lemma binade_large: "2 ^ Suc n \<le> x \<Longrightarrow> binade n x = 2 ^ n"
proof (induction n arbitrary: x)
  case 0
  show ?case by simp
next
  case (Suc n)
  have "(1::real) \<le> 2 ^ n" by simp
  then have "(2::real) \<le> 2 ^ Suc (Suc n)" unfolding power_Suc by linarith
  with Suc.prems have "2 \<le> x" by linarith
  moreover from Suc.prems have "2 ^ Suc n \<le> x / 2" by simp
  then have "binade n (x / 2) = 2 ^ n" by (rule Suc.IH)
  ultimately show ?case by simp
qed

lemma pow2_gap:
  fixes a b :: real
  assumes "a * 2 ^ n = 2 ^ j" and "b * 2 ^ n = 2 ^ k" and "a < b"
  shows "2 * a \<le> b"
proof -
  from \<open>a < b\<close> have "a * 2 ^ n < b * 2 ^ n" by simp
  with assms(1,2) have "(2::real) ^ j < 2 ^ k" by simp
  then have "j < k" by simp
  then have "Suc j \<le> k" by simp
  then have "(2::real) ^ Suc j \<le> 2 ^ k" by (intro power_increasing) simp_all
  with assms(1,2) have "(2 * a) * 2 ^ n \<le> b * 2 ^ n" by simp
  then show ?thesis by simp
qed

lemma ulp_base_scaled:
  "\<exists>k. max (binade 300 x) (1 / 2 ^ 126) * 2 ^ 300 = 2 ^ k"
proof (cases "1 / 2 ^ 126 \<le> binade 300 x")
  case True
  then have "max (binade 300 x) (1 / 2 ^ 126) = binade 300 x" by (simp add: max_def)
  with binade_scaled [of 300 x] show ?thesis by simp
next
  case False
  then have "max (binade 300 x) (1 / 2 ^ 126) = 1 / 2 ^ 126" by (simp add: max_def)
  moreover have "(1 / 2 ^ 126) * 2 ^ 300 = (2::real) ^ 174" by simp
  ultimately show ?thesis by metis
qed

lemma fl32_pos_eq:
  "0 < x \<Longrightarrow> fl32 x = of_int (rne (x / (max (binade 300 x) (1 / 2 ^ 126) / 2 ^ 23)))
      * (max (binade 300 x) (1 / 2 ^ 126) / 2 ^ 23)"
  by (simp add: fl32_def Let_def)

lemma fl32_mono_pos:
  assumes "0 < x" and "x \<le> y"
  shows "fl32 x \<le> fl32 y"
proof -
  define bx where "bx = max (binade 300 x) (1 / 2 ^ 126)"
  define bz where "bz = max (binade 300 y) (1 / 2 ^ 126)"
  define ux where "ux = bx / 2 ^ 23"
  define uz where "uz = bz / 2 ^ 23"
  from assms have "0 < y" by simp
  have fx: "fl32 x = of_int (rne (x / ux)) * ux"
    using \<open>0 < x\<close> by (simp add: fl32_pos_eq ux_def bx_def)
  have fy: "fl32 y = of_int (rne (y / uz)) * uz"
    using \<open>0 < y\<close> by (simp add: fl32_pos_eq uz_def bz_def)
  have "0 < bx" and "0 < bz" by (simp_all add: bx_def bz_def max_def)
  then have "0 < ux" and "0 < uz" by (simp_all add: ux_def uz_def)
  from \<open>x \<le> y\<close> have "binade 300 x \<le> binade 300 y" by (rule binade_mono)
  then have "bx \<le> bz" by (simp add: bx_def bz_def max_def)
  show ?thesis
  proof (cases "bx = bz")
    case True
    then have "ux = uz" by (simp add: ux_def uz_def)
    from \<open>x \<le> y\<close> \<open>0 < ux\<close> have "x / ux \<le> y / ux" by (simp add: divide_right_mono)
    then have "rne (x / ux) \<le> rne (y / ux)" by (rule rne_mono)
    then have "(of_int (rne (x / ux)) :: real) \<le> of_int (rne (y / ux))" by simp
    with \<open>0 < ux\<close> have "of_int (rne (x / ux)) * ux \<le> of_int (rne (y / ux)) * ux"
      by (simp add: mult_right_mono)
    with fx fy \<open>ux = uz\<close> show ?thesis by simp
  next
    case False
    with \<open>bx \<le> bz\<close> have less: "bx < bz" by simp
    obtain j where j: "bx * 2 ^ 300 = 2 ^ j"
      using ulp_base_scaled [of x] unfolding bx_def by blast
    obtain k where k: "bz * 2 ^ 300 = 2 ^ k"
      using ulp_base_scaled [of y] unfolding bz_def by blast
    from j k less have gap: "2 * bx \<le> bz" by (rule pow2_gap)
    have "x < 2 ^ Suc 300"
    proof (rule ccontr)
      assume "\<not> x < 2 ^ Suc 300"
      then have "2 ^ Suc 300 \<le> x" by simp
      then have "binade 300 x = 2 ^ 300" by (rule binade_large)
      then have "(2::real) ^ 300 \<le> bx" by (simp add: bx_def)
      moreover have "binade 300 y \<le> 2 ^ 300" by (rule binade_le_power)
      then have "bz \<le> 2 ^ 300" by (simp add: bz_def)
      ultimately show False using less by simp
    qed
    then have "x < 2 * binade 300 x" by (rule binade_upper)
    also have "\<dots> \<le> 2 * bx" by (simp add: bx_def)
    finally have "x < 2 * bx" .
    have "2 * bx = 2 ^ 24 * ux" by (simp add: ux_def)
    with \<open>x < 2 * bx\<close> \<open>0 < ux\<close> have "x / ux \<le> of_int (2 ^ 24)"
      by (simp add: pos_divide_le_eq)
    then have "rne (x / ux) \<le> rne (of_int (2 ^ 24))" by (rule rne_mono)
    then have "rne (x / ux) \<le> 2 ^ 24" by (simp only: rne_of_int)
    then have "(of_int (rne (x / ux)) :: real) \<le> of_int (2 ^ 24)" by (simp only: of_int_le_iff)
    with \<open>0 < ux\<close> have "of_int (rne (x / ux)) * ux \<le> of_int (2 ^ 24) * ux"
      by (intro mult_right_mono) simp_all
    with fx \<open>2 * bx = 2 ^ 24 * ux\<close> have upper: "fl32 x \<le> 2 * bx" by simp
    from less have "1 / 2 ^ 126 < bz" using \<open>0 < bx\<close> by (simp add: bx_def bz_def max_def split: if_splits)
    then have bz_eq: "bz = binade 300 y" by (simp add: bz_def max_def split: if_splits)
    have "bz \<le> y"
    proof -
      from binade_lower [OF \<open>0 < y\<close>, of 300]
      have "binade 300 y \<le> y \<or> binade 300 y = 1 / 2 ^ 300" .
      moreover have "(1::real) / 2 ^ 300 \<le> 1 / 2 ^ 126" by simp
      ultimately show ?thesis using \<open>1 / 2 ^ 126 < bz\<close> bz_eq by auto
    qed
    have "bz = 2 ^ 23 * uz" by (simp add: uz_def)
    with \<open>bz \<le> y\<close> \<open>0 < uz\<close> have "of_int (2 ^ 23) \<le> y / uz"
      by (simp add: pos_le_divide_eq)
    then have "rne (of_int (2 ^ 23)) \<le> rne (y / uz)" by (rule rne_mono)
    then have "2 ^ 23 \<le> rne (y / uz)" by (simp only: rne_of_int)
    then have "(of_int (2 ^ 23) :: real) \<le> of_int (rne (y / uz))" by (simp only: of_int_le_iff)
    with \<open>0 < uz\<close> have "of_int (2 ^ 23) * uz \<le> of_int (rne (y / uz)) * uz"
      by (intro mult_right_mono) simp_all
    with fy \<open>bz = 2 ^ 23 * uz\<close> have lower: "bz \<le> fl32 y" by simp
    from upper gap lower show ?thesis by linarith
  qed
qed

lemma fl32_uminus: "fl32 (- x) = - fl32 x"
  by (simp add: fl32_def Let_def rne_uminus)

lemma fl32_nonneg:
  assumes "0 \<le> x"
  shows "0 \<le> fl32 x"
proof (cases "x = 0")
  case True
  then show ?thesis by (simp add: fl32_def)
next
  case False
  with assms have "0 < x" by simp
  define u where "u = max (binade 300 x) (1 / 2 ^ 126) / 2 ^ 23"
  have "0 < u" by (simp add: u_def max_def)
  with \<open>0 < x\<close> have "of_int 0 \<le> x / u" by simp
  then have "rne (of_int 0) \<le> rne (x / u)" by (rule rne_mono)
  then have "0 \<le> rne (x / u)" by (simp only: rne_of_int)
  with \<open>0 < u\<close> have "0 \<le> of_int (rne (x / u)) * u" by simp
  with \<open>0 < x\<close> show ?thesis by (simp add: fl32_pos_eq u_def)
qed

lemma fl32_mono:
  assumes "x \<le> y"
  shows "fl32 x \<le> fl32 y"
proof -
  consider "0 < x" | "x \<le> 0" "0 \<le> y" | "y < 0" by linarith
  then show ?thesis
  proof cases
    case 1
    then show ?thesis using assms by (rule fl32_mono_pos)
  next
    case 2
    then have "0 \<le> fl32 (- x)" and "0 \<le> fl32 y" by (simp_all add: fl32_nonneg)
    then show ?thesis by (simp add: fl32_uminus)
  next
    case 3
    with assms have "0 < - y" and "- y \<le> - x" by simp_all
    then have "fl32 (- y) \<le> fl32 (- x)" by (rule fl32_mono_pos)
    then show ?thesis by (simp add: fl32_uminus)
  qed
qed

subsection \<open>Errors, array access and \<open>argmin\<close>\<close>

lemma ebind_Inr [simp]: "ebind (Inr x) f = f x"
  by (simp add: ebind_def)

lemma ebind_Inl [simp]: "ebind (Inl e) f = Inl e"
  by (simp add: ebind_def)

lemma ebind_eq_Inr: "ebind m f = Inr y \<longleftrightarrow> (\<exists>x. m = Inr x \<and> f x = Inr y)"
  by (cases m) simp_all

lemma at_get_in_range: "i < length xs \<Longrightarrow> at_get xs i = Inr (xs ! i)"
  by (auto simp: at_get_def min_def)

lemma at_get_member:
  assumes "at_get xs i = Inr x"
  shows "x \<in> set xs"
proof -
  from assms have ne: "xs \<noteq> []" and x: "x = xs ! min i (length xs - 1)"
    by (auto simp: at_get_def split: if_splits)
  from ne have "min i (length xs - 1) < length xs"
    by (cases xs) (auto simp: min_def)
  with x show ?thesis by simp
qed

lemma mask_select_indices:
  assumes "length ys = length xs"
  shows "mask_select xs (map P ys)
         = Inr (map (\<lambda>j. xs ! j) (filter (\<lambda>j. P (ys ! j)) [0..<length ys]))"
proof -
  have "zip xs (map P ys) = map (\<lambda>j. (xs ! j, P (ys ! j))) [0..<length ys]"
    using assms by (intro nth_equalityI) simp_all
  then show ?thesis
    using assms by (simp add: mask_select_def filter_map comp_def)
qed

lemma length_filter_indices:
  "length (filter (\<lambda>j. P (ys ! j)) [0..<length ys]) = length (filter P ys)"
proof -
  have "filter P ys = filter P (map (\<lambda>j. ys ! j) [0..<length ys])"
    by (simp add: map_nth)
  also have "\<dots> = map (\<lambda>j. ys ! j) (filter (\<lambda>j. P (ys ! j)) [0..<length ys])"
    by (simp add: filter_map comp_def)
  finally show ?thesis by simp
qed

lemma argmin_index_less: "xs \<noteq> [] \<Longrightarrow> argmin_index xs < length xs"
  by (induction xs rule: argmin_index.induct) (auto simp: Let_def)

lemma argmin_index_least:
  "xs \<noteq> [] \<Longrightarrow> j < length xs \<Longrightarrow> xs ! argmin_index xs \<le> xs ! j"
proof (induction xs arbitrary: j rule: argmin_index.induct)
  case 1 then show ?case by simp
next
  case (2 x) then show ?case by simp
next
  case (3 x y ys)
  show ?case
  proof (cases j)
    case 0
    then show ?thesis by (auto simp: Let_def)
  next
    case (Suc k)
    with 3 have "(y # ys) ! argmin_index (y # ys) \<le> (y # ys) ! k" by simp
    with Suc show ?thesis by (auto simp: Let_def)
  qed
qed

lemma argmin_index_first:
  "j < argmin_index xs \<Longrightarrow> xs ! argmin_index xs < xs ! j"
proof (induction xs arbitrary: j rule: argmin_index.induct)
  case 1 then show ?case by simp
next
  case (2 x) then show ?case by simp
next
  case (3 x y ys)
  let ?m = "argmin_index (y # ys)"
  from 3(2) have lt: "(y # ys) ! ?m < x" and am: "argmin_index (x # y # ys) = Suc ?m"
    by (auto simp: Let_def split: if_splits)
  show ?case
  proof (cases j)
    case 0
    with lt am show ?thesis by simp
  next
    case (Suc k)
    with 3(2) am have "k < ?m" by simp
    with 3(1) have "(y # ys) ! ?m < (y # ys) ! k" by simp
    with Suc am show ?thesis by simp
  qed
qed

subsection \<open>The functions on well-formed arguments\<close>

lemma get_neighbors_in_range:
  assumes "i < length pos" and "length sp = length pos"
  shows "get_neighbors cfg i pos sp
         = Inr (map (\<lambda>j. sp ! j)
                 (filter (\<lambda>j. fl32 (pos ! i - delta_x cfg) \<le> pos ! j \<and>
                             pos ! j \<le> fl32 (pos ! i + delta_x cfg))
                    [0..<length pos]))"
  using assms by (simp add: get_neighbors_def at_get_in_range mask_select_indices Let_def)

lemma length_get_neighbors:
  assumes "i < length pos" and "length sp = length pos"
  shows "\<exists>nb. get_neighbors cfg i pos sp = Inr nb \<and> length nb = interval_count cfg (pos ! i) pos"
  using assms
  by (simp add: get_neighbors_in_range interval_count_def
        length_filter_indices
          [of "\<lambda>y. fl32 (pos ! i - delta_x cfg) \<le> y \<and> y \<le> fl32 (pos ! i + delta_x cfg)" pos])

lemma update_spin_explore:
  assumes "random_uniform J (key G) < eps" and "i < length sp"
  shows "update_spin J cfg G i sp Q eps = Inr (- sp ! i)"
  using assms by (simp add: update_spin_def at_get_in_range)

lemma update_spin_greedy:
  assumes "\<not> random_uniform J (key G) < eps" and "i < length sp"
    and "length sp = length (positions G)" and "\<forall>ps x. apply_fn Q ps x \<noteq> []"
  shows "update_spin J cfg G i sp Q eps =
           ebind (get_neighbors cfg i (positions G) sp) (\<lambda>nb.
             Inr (if argmin_index (apply_fn Q (params Q) [sp ! i, sgn (sum_list nb)]) = 0
                  then sp ! i else - sp ! i))"
  using assms by (simp add: update_spin_def at_get_in_range argmin_def Let_def)

lemma update_spin_total:
  assumes "i < length sp" and "length sp = length (positions G)"
    and "\<forall>ps x. apply_fn Q ps x \<noteq> []"
  shows "\<exists>s'. update_spin J cfg G i sp Q eps = Inr s' \<and> (s' = sp ! i \<or> s' = - sp ! i)"
proof (cases "random_uniform J (key G) < eps")
  case True
  with assms show ?thesis by (simp add: update_spin_explore)
next
  case False
  with assms show ?thesis
    by (simp add: update_spin_greedy get_neighbors_in_range)
qed

lemma update_spin_value:
  assumes "update_spin J cfg G i sp Q eps = Inr s'"
  shows "s' \<in> set sp \<or> - s' \<in> set sp"
  using assms
  by (auto simp: update_spin_def ebind_eq_Inr Let_def dest: at_get_member split: if_splits)

lemma update_position_in_range:
  assumes "i < length pos" and "length vel = length pos" and "length sp = length pos"
  shows "update_position cfg i pos sp vel
         = Inr (fl32 (pos ! i + fl32 (fl32 (vel ! i * fl32 (real_of_int (sp ! i))) * delta_t cfg)))"
  using assms by (simp add: update_position_def at_get_in_range)

lemma cost_function_in_range:
  assumes "well_formed cfg G" and "i < nat (N cfg)"
  shows "cost_function J cfg G i (positions G) (spins G) =
           Inr (let x = positions G ! i;
                    x' = fl32 (x + fl32 (fl32 (velocities G ! i * fl32 (real_of_int (spins G ! i)))
                                           * delta_t cfg))
                in if interval_count cfg x' ((positions G)[i := x'])
                      < interval_count cfg x (positions G) then 1 else 0)"
proof -
  let ?pos = "positions G" and ?sp = "spins G"
  let ?x' = "fl32 (?pos ! i + fl32 (fl32 (velocities G ! i * fl32 (real_of_int (?sp ! i)))
                                      * delta_t cfg))"
  from assms have len: "i < length ?pos" "length ?sp = length ?pos"
    "length (velocities G) = length ?pos" and q: "\<forall>ps x. apply_fn (state G) ps x \<noteq> []"
    by (simp_all add: well_formed_def)
  obtain nb where nb: "get_neighbors cfg i ?pos ?sp = Inr nb"
    "length nb = interval_count cfg (?pos ! i) ?pos"
    using length_get_neighbors [OF len(1,2)] by blast
  obtain s' where s': "update_spin J cfg G i ?sp (state G) (epsilon cfg) = Inr s'"
    using update_spin_total [of i ?sp G "state G"] len q by fastforce
  have "i < length (?pos[i := ?x'])" "length (?sp[i := s']) = length (?pos[i := ?x'])"
    using len by simp_all
  from length_get_neighbors [OF this, of cfg]
  obtain nb' where nb': "get_neighbors cfg i (?pos[i := ?x']) (?sp[i := s']) = Inr nb'"
    "length nb' = interval_count cfg ?x' (?pos[i := ?x'])"
    using len by auto
  show ?thesis
    using nb s' nb' len
    by (simp add: cost_function_def update_position_in_range Let_def)
qed

lemma apply_fn_apply_gradients [simp]: "apply_fn (apply_gradients J st g) = apply_fn st"
  by (simp add: apply_gradients_def Let_def split: prod.splits)

lemma step_apply_gradients [simp]: "step (apply_gradients J st g) = Suc (step st)"
  by (simp add: apply_gradients_def Let_def split: prod.splits)

lemma update_Q_target_in_range:
  assumes "i < length (positions G)" and "length (spins G) = length (positions G)"
    and "\<forall>ps x. apply_fn st ps x \<noteq> []"
  shows "\<exists>nb. get_neighbors cfg i (positions G) (spins G) = Inr nb \<and>
           update_Q_target cfg G i st cost =
             (let state_input = [spins G ! i, sgn (sum_list nb)];
                  q_values = apply_fn st (params st) state_input;
                  action = argmin_index q_values
              in Inr (state_input, q_values, action, q_values[action := real_of_int cost]))"
  using assms
  by (simp add: update_Q_target_def get_neighbors_in_range at_get_in_range argmin_def Let_def)

lemma update_Q_eq:
  "update_Q J cfg G i st cost = Inr st' \<longleftrightarrow>
     (\<exists>state_input q_values action target.
        update_Q_target cfg G i st cost = Inr (state_input, q_values, action, target) \<and>
        st' = apply_gradients J st
                (grad J (\<lambda>ps. squared_error (apply_fn st ps state_input) target) (params st)))"
  by (auto simp: update_Q_def ebind_eq_Inr Let_def)

lemma update_Q_apply_fn:
  "update_Q J cfg G i st cost = Inr st' \<Longrightarrow> apply_fn st' = apply_fn st"
  by (auto simp: update_Q_eq)

lemma update_Q_total:
  assumes "i < length (positions G)" and "length (spins G) = length (positions G)"
    and "\<forall>ps x. apply_fn st ps x \<noteq> []"
  shows "\<exists>st'. update_Q J cfg G i st cost = Inr st'"
proof -
  from update_Q_target_in_range [OF assms, of cfg cost]
  obtain r where "update_Q_target cfg G i st cost = Inr r"
    by (auto simp: Let_def)
  then show ?thesis
    by (cases r) (simp add: update_Q_def Let_def)
qed

lemma particle_update_frame:
  assumes "particle_update J cfg G i = Inr G'"
  shows "\<exists>st' s' p'. G' = G\<lparr>state := st', spins := (spins G)[i := s'],
                              positions := (positions G)[i := p']\<rparr> \<and>
           apply_fn st' = apply_fn (state G) \<and> (s' \<in> set (spins G) \<or> - s' \<in> set (spins G))"
proof -
  from assms obtain cost st' s' p' where
    q: "update_Q J cfg G i (state G) cost = Inr st'" and
    s: "update_spin J cfg (G\<lparr>state := st'\<rparr>) i (spins G) st' (epsilon cfg) = Inr s'" and
    G': "G' = G\<lparr>state := st', spins := (spins G)[i := s'], positions := (positions G)[i := p']\<rparr>"
    by (auto simp: particle_update_def ebind_eq_Inr Let_def)
  from q have "apply_fn st' = apply_fn (state G)" by (rule update_Q_apply_fn)
  moreover from s have "s' \<in> set (spins G) \<or> - s' \<in> set (spins G)" by (rule update_spin_value)
  ultimately show ?thesis using G' by blast
qed

lemma particle_update_step:
  assumes "particle_update J cfg G i = Inr G'"
  shows "step (state G') = Suc (step (state G))"
proof -
  from assms obtain cost st' s' p' where
    q: "update_Q J cfg G i (state G) cost = Inr st'" and
    G': "G' = G\<lparr>state := st', spins := (spins G)[i := s'], positions := (positions G)[i := p']\<rparr>"
    by (auto simp: particle_update_def ebind_eq_Inr Let_def)
  from q have "step st' = Suc (step (state G))"
    by (auto simp: update_Q_eq)
  with G' show ?thesis by simp
qed

lemma particle_update_in_range:
  assumes "well_formed cfg G" and "i < nat (N cfg)"
  shows "\<exists>st' s'. particle_update J cfg G i =
           Inr (G\<lparr>state := st', spins := (spins G)[i := s'],
                  positions := (positions G)[i := fl32 (positions G ! i
                     + fl32 (fl32 (velocities G ! i * fl32 (real_of_int s')) * delta_t cfg))]\<rparr>) \<and>
           apply_fn st' = apply_fn (state G) \<and> (s' = spins G ! i \<or> s' = - spins G ! i)"
proof -
  from assms have len: "i < length (positions G)" "length (spins G) = length (positions G)"
    "length (velocities G) = length (positions G)" "i < length (spins G)"
    and q: "\<forall>ps x. apply_fn (state G) ps x \<noteq> []"
    by (simp_all add: well_formed_def)
  obtain cost where c: "cost_function J cfg G i (positions G) (spins G) = Inr cost"
    using cost_function_in_range [OF assms] by blast
  obtain st' where st': "update_Q J cfg G i (state G) cost = Inr st'"
    using update_Q_total [OF len(1,2) q] by blast
  then have ap: "apply_fn st' = apply_fn (state G)" by (rule update_Q_apply_fn)
  have "\<exists>s'. update_spin J cfg (G\<lparr>state := st'\<rparr>) i (spins G) st' (epsilon cfg) = Inr s' \<and>
          (s' = spins G ! i \<or> s' = - spins G ! i)"
    using len q ap by (intro update_spin_total) simp_all
  then obtain s' where s': "update_spin J cfg (G\<lparr>state := st'\<rparr>) i (spins G) st' (epsilon cfg) = Inr s'"
    "s' = spins G ! i \<or> s' = - spins G ! i" by blast
  have "particle_update J cfg G i =
          Inr (G\<lparr>state := st', spins := (spins G)[i := s'],
                 positions := (positions G)[i := fl32 (positions G ! i
                    + fl32 (fl32 (velocities G ! i * fl32 (real_of_int s')) * delta_t cfg))]\<rparr>)"
    using c st' s'(1) len
    by (simp add: particle_update_def Let_def update_position_in_range)
  with ap s'(2) show ?thesis by blast
qed

lemma particle_update_well_formed:
  assumes "particle_update J cfg G i = Inr G'" and "well_formed cfg G"
  shows "well_formed cfg G'"
proof -
  from particle_update_frame [OF assms(1)] obtain st' s' p' where
    "G' = G\<lparr>state := st', spins := (spins G)[i := s'], positions := (positions G)[i := p']\<rparr>"
    "apply_fn st' = apply_fn (state G)" by blast
  with assms(2) show ?thesis by (simp add: well_formed_def)
qed

subsection \<open>Loops\<close>

lemma for_each_append:
  "for_each body (xs @ ys) s = ebind (for_each body xs s) (for_each body ys)"
proof (induction xs arbitrary: s)
  case Nil
  show ?case by simp
next
  case (Cons x xs)
  show ?case by (cases "body s x") (simp_all add: Cons.IH)
qed

lemma for_each_invariant:
  assumes "for_each body xs s = Inr s'" and "P s"
    and "\<And>t x t'. P t \<Longrightarrow> body t x = Inr t' \<Longrightarrow> P t'"
  shows "P s'"
  using assms(1,2)
proof (induction xs arbitrary: s)
  case Nil
  then show ?case by simp
next
  case (Cons x xs)
  from Cons.prems(1) obtain t where t: "body s x = Inr t" "for_each body xs t = Inr s'"
    by (auto simp: ebind_eq_Inr)
  from assms(3) [OF Cons.prems(2) t(1)] have "P t" .
  with Cons.IH t(2) show ?case by blast
qed

lemma for_each_total:
  assumes "P s" and "\<And>t x. P t \<Longrightarrow> x \<in> set xs \<Longrightarrow> \<exists>t'. body t x = Inr t' \<and> P t'"
  shows "\<exists>s'. for_each body xs s = Inr s' \<and> P s'"
  using assms
proof (induction xs arbitrary: s)
  case Nil
  then show ?case by simp
next
  case (Cons x xs)
  from Cons.prems(2) [OF Cons.prems(1), of x] obtain t where t: "body s x = Inr t" "P t"
    by auto
  have "\<exists>s'. for_each body xs t = Inr s' \<and> P s'"
    using t(2) Cons.prems(2) by (intro Cons.IH) auto
  with t(1) show ?case by simp
qed

lemma for_each_steps:
  assumes "for_each (particle_update J cfg) xs G = Inr G'"
  shows "step (state G') = step (state G) + length xs"
  using assms
proof (induction xs arbitrary: G)
  case Nil
  then show ?case by simp
next
  case (Cons x xs)
  from Cons.prems obtain H where H: "particle_update J cfg G x = Inr H"
    "for_each (particle_update J cfg) xs H = Inr G'"
    by (auto simp: ebind_eq_Inr)
  from Cons.IH [OF H(2)] particle_update_step [OF H(1)] show ?case by simp
qed

lemma simulation_loop_flat:
  "simulation_loop J cfg n G =
     for_each (particle_update J cfg) (concat (replicate n [0..<nat (N cfg)])) G"
proof -
  have "for_each (\<lambda>G' t. sweep J cfg G') ts G =
          for_each (particle_update J cfg) (concat (replicate (length ts) [0..<nat (N cfg)])) G"
    for ts :: "nat list"
  proof (induction ts arbitrary: G)
    case Nil
    show ?case by simp
  next
    case (Cons t ts)
    show ?case
      by (cases "sweep J cfg G") (simp_all add: for_each_append Cons.IH, simp_all add: sweep_def)
  qed
  from this [of "[0..<n]"] show ?thesis by (simp add: simulation_loop_def)
qed

lemma schedule_members: "i \<in> set (schedule cfg n) \<Longrightarrow> i < nat (N cfg)"
  by (auto simp: schedule_def split: if_splits)

lemma length_schedule: "length (schedule cfg n) = n * nat (N cfg)"
  by (induction n) (simp_all add: schedule_def)

lemma simulation_loop_as_prefix:
  "simulation_loop J cfg n G = run_prefix J cfg n (n * nat (N cfg)) G"
  by (simp add: run_prefix_def simulation_loop_flat schedule_def [symmetric] length_schedule)

lemma run_prefix_earlier:
  assumes "run_prefix J cfg n k' G = Inr G'" and "k \<le> k'"
  shows "\<exists>Gk. run_prefix J cfg n k G = Inr Gk"
proof -
  let ?xs = "schedule cfg n"
  from assms(2) have "take k' ?xs = take k ?xs @ take (k' - k) (drop k ?xs)"
    by (metis le_add_diff_inverse take_add)
  with assms(1) have
    "ebind (for_each (particle_update J cfg) (take k ?xs) G)
       (for_each (particle_update J cfg) (take (k' - k) (drop k ?xs))) = Inr G'"
    by (simp add: run_prefix_def for_each_append)
  then show ?thesis
    by (auto simp: run_prefix_def ebind_eq_Inr)
qed

lemma run_as_prefix:
  "initialise J cfg seed = Inr G0 \<Longrightarrow>
   run J cfg seed n = run_prefix J cfg n (n * nat (N cfg)) G0"
  by (simp add: run_def simulation_loop_as_prefix)

lemma run_prefix_frame:
  assumes "run_prefix J cfg n k G = Inr G'"
  shows "key G' = key G \<and> velocities G' = velocities G \<and>
         apply_fn (state G') = apply_fn (state G)"
proof -
  have "key G' = key G \<and> velocities G' = velocities G \<and>
        apply_fn (state G') = apply_fn (state G)"
  proof (rule for_each_invariant [where P = "\<lambda>H. key H = key G \<and> velocities H = velocities G \<and>
        apply_fn (state H) = apply_fn (state G)"])
    show "for_each (particle_update J cfg) (take k (schedule cfg n)) G = Inr G'"
      using assms by (simp add: run_prefix_def)
    show "key G = key G \<and> velocities G = velocities G \<and>
        apply_fn (state G) = apply_fn (state G)" by simp
  next
    fix t x t'
    assume "key t = key G \<and> velocities t = velocities G \<and> apply_fn (state t) = apply_fn (state G)"
      and "particle_update J cfg t x = Inr t'"
    then show "key t' = key G \<and> velocities t' = velocities G \<and>
        apply_fn (state t') = apply_fn (state G)"
      using particle_update_frame [of J cfg t x t'] by auto
  qed
  then show ?thesis .
qed

lemma run_prefix_spins:
  assumes "run_prefix J cfg n k G = Inr G'" and "set (spins G) \<subseteq> {- 1, 1}"
  shows "set (spins G') \<subseteq> {- 1, 1}"
proof (rule for_each_invariant [where P = "\<lambda>H. set (spins H) \<subseteq> {- 1, 1}"])
  show "for_each (particle_update J cfg) (take k (schedule cfg n)) G = Inr G'"
    using assms(1) by (simp add: run_prefix_def)
  show "set (spins G) \<subseteq> {- 1, 1}" by (rule assms(2))
next
  fix t x t'
  assume inv: "set (spins t) \<subseteq> {- 1, 1}" and step: "particle_update J cfg t x = Inr t'"
  from particle_update_frame [OF step] obtain st' s' p' where
    t': "t' = t\<lparr>state := st', spins := (spins t)[x := s'], positions := (positions t)[x := p']\<rparr>"
    and s': "s' \<in> set (spins t) \<or> - s' \<in> set (spins t)" by blast
  from s' inv have "s' = - 1 \<or> s' = 1" by auto
  moreover have "set ((spins t)[x := s']) \<subseteq> insert s' (set (spins t))"
    by (rule set_update_subset_insert)
  ultimately show "set (spins t') \<subseteq> {- 1, 1}"
    using inv t' by auto
qed

lemma run_prefix_total:
  fixes J :: "('p, 'o) jax"
  assumes "well_formed cfg G"
  shows "\<exists>G'. run_prefix J cfg n k G = Inr G' \<and> well_formed cfg G'"
  unfolding run_prefix_def
proof (rule for_each_total)
  show "well_formed cfg G" by (rule assms)
next
  fix t :: "('p, 'o) globals" and x
  assume wf: "well_formed cfg t" and "x \<in> set (take k (schedule cfg n))"
  then have "x < nat (N cfg)"
    by (auto dest: in_set_takeD schedule_members)
  from particle_update_in_range [OF wf this, where J = J]
  obtain t' where t': "particle_update J cfg t x = Inr t'" by blast
  from t' wf have "well_formed cfg t'" by (rule particle_update_well_formed)
  with t' show "\<exists>t'. particle_update J cfg t x = Inr t' \<and> well_formed cfg t'" by blast
qed

subsection \<open>Set-up and whole runs\<close>

lemma initialise_eq:
  "0 \<le> N cfg \<Longrightarrow> 0 < num_actions cfg \<Longrightarrow> initialise J cfg seed =
     Inr \<lparr>key = fst (random_split J (PRNGKey J seed)),
          positions = random_uniform_array J (PRNGKey J seed) (nat (N cfg)) 0 (L cfg),
          spins = random_choice J (PRNGKey J seed) [- 1, 1] (nat (N cfg)),
          velocities = random_uniform_array J (PRNGKey J seed) (nat (N cfg)) (v1 cfg) (v2 cfg),
          state =
            \<lparr>step = 0, apply_fn = QNetwork_apply J (num_actions cfg),
             params = QNetwork_init J (num_actions cfg) (snd (random_split J (PRNGKey J seed))),
             tx = adam J (alpha cfg),
             opt_state = init_fn (adam J (alpha cfg))
               (QNetwork_init J (num_actions cfg) (snd (random_split J (PRNGKey J seed))))\<rparr>\<rparr>"
  by (simp add: initialise_def create_train_state_def Let_def split: prod.splits)

lemma initialise_rejected:
  "N cfg < 0 \<or> num_actions cfg \<le> 0 \<Longrightarrow> initialise J cfg seed = Inl ShapeError"
  by (auto simp: initialise_def create_train_state_def Let_def split: prod.splits)

lemma initialise_Inr_nonneg:
  assumes "initialise J cfg seed = Inr G"
  shows "0 \<le> N cfg" and "0 < num_actions cfg"
  using assms initialise_rejected [of cfg J seed] by (auto simp: not_less [symmetric])

lemma initialise_well_formed:
  assumes "library_contract J cfg" and "0 \<le> N cfg" and "0 < num_actions cfg"
  shows "\<exists>G. initialise J cfg seed = Inr G \<and> well_formed cfg G"
proof -
  have "QNetwork_apply J (num_actions cfg) ps x \<noteq> []" for ps x
  proof -
    from assms(1) have "length (QNetwork_apply J (num_actions cfg) ps x) = nat (num_actions cfg)"
      by (simp add: library_contract_def)
    with assms(3) show ?thesis by auto
  qed
  moreover from assms(1) have
    "\<And>k n lo hi. length (random_uniform_array J k n lo hi) = n"
    "\<And>k xs n. length (random_choice J k xs n) = n"
    unfolding library_contract_def by blast+
  ultimately show ?thesis
    using assms(2,3)
    by (simp add: initialise_eq well_formed_def)
qed

lemma run_total:
  assumes "library_contract J cfg" and "0 \<le> N cfg" and "0 < num_actions cfg"
  shows "\<exists>G. run J cfg seed n = Inr G \<and> well_formed cfg G"
proof -
  from initialise_well_formed [OF assms, of seed]
  obtain G0 where G0: "initialise J cfg seed = Inr G0" "well_formed cfg G0" by blast
  from run_prefix_total [OF G0(2), of J n "n * nat (N cfg)"] G0(1)
  show ?thesis by (simp add: run_def simulation_loop_as_prefix)
qed

subsection \<open>Evaluation on the tabular instance\<close>

lemmas ex_defs = table_jax_def two_config_def exploring_config_def paper_config_def
  table_state_def two_particles_def

lemmas fn_defs = particle_update_def cost_function_def update_Q_def update_Q_target_def
  update_spin_def update_position_def get_neighbors_def mask_select_def at_get_def argmin_def
  apply_gradients_def squared_error_def mean_def fl32_eval

lemmas ex_defs2 = ex_defs two_initial_def two_after_first_def two_after_sweep_def
  two_after_flip_def negative_step_config_def isolated_config_def create_train_state_def

lemma table_jax_choice: "xs \<noteq> [] \<Longrightarrow> set (random_choice table_jax k xs n) \<subseteq> set xs"
  by (auto simp: table_jax_def)

lemma schedule_two_config: "schedule two_config (Suc 0) = [0, Suc 0]"
  by (simp add: schedule_def two_config_def upt_conv_Cons)

lemma initialise_two_config: "initialise table_jax two_config 0 = Inr two_initial"
  by (simp add: initialise_def ex_defs2 Let_def upt_conv_Cons)

lemma well_formed_two_particles: "well_formed two_config (two_particles ps)"
  by (simp add: well_formed_def ex_defs2)

lemma well_formed_exploring: "well_formed exploring_config (two_particles ps)"
  by (simp add: well_formed_def ex_defs2)

lemma initialise_exploring_config: "initialise table_jax exploring_config 0 = Inr two_initial"
  by (simp add: initialise_def ex_defs2 Let_def upt_conv_Cons)

lemma first_update_two_initial:
  "particle_update table_jax two_config two_initial 0 = Inr two_after_first"
  by (simp add: ex_defs2 fn_defs power2_eq_square)

lemma run_prefix_two_initial:
  "run_prefix table_jax two_config 1 1 two_initial = Inr two_after_first"
  by (simp add: run_prefix_def schedule_two_config first_update_two_initial)

lemma second_update_two_initial:
  "particle_update table_jax two_config two_after_first 1 = Inr two_after_sweep"
  by (simp add: ex_defs2 fn_defs power2_eq_square)

lemma sweep_two_initial:
  "run_prefix table_jax two_config 1 2 two_initial = Inr two_after_sweep"
  by (simp add: run_prefix_def schedule_two_config first_update_two_initial
        second_update_two_initial [unfolded One_nat_def])

lemma schedule_exploring_config: "schedule exploring_config (Suc 0) = [0, Suc 0]"
  by (simp add: schedule_def exploring_config_def two_config_def upt_conv_Cons)

lemma flip_update_two_initial:
  "particle_update table_jax exploring_config two_initial 0 = Inr two_after_flip"
  by (simp add: ex_defs2 fn_defs power2_eq_square)

lemma run_prefix_exploring:
  "run_prefix table_jax exploring_config 1 1 two_initial = Inr two_after_flip"
  by (simp add: run_prefix_def schedule_exploring_config flip_update_two_initial)

section \<open>The claims\<close>

text \<open>
  Claim C1 (action selection).  The claim asks for a uniformly random choice between keep
  and flip when the exploration test passes.  In \<open>update_spin\<close> that branch
  is \<open>return -spins[i]\<close>: whenever the draw from the module-level key is below
  \<open>eps\<close>, the result is the flipped spin, for every Q-function and every
  neighbourhood; there is no second draw, so the spin is never kept in this branch.
\<close>

theorem update_spin_exploration_always_flips:
  assumes "random_uniform J (key G) < eps" and "i < length sp"
  shows "update_spin J cfg G i sp Q eps = Inr (- sp ! i)"
  using assms by (rule update_spin_explore)

text \<open>
  With \<open>epsilon = 1\<close> the draw \<open>1/2\<close>, like every draw from \<open>[0, 1)\<close>, passes the
  test: both particles of the two-particle state are flipped, although the greedy action
  for the estimates \<open>[0, 1]\<close> is keep.
\<close>

theorem update_spin_exploration_always_flips_witness:
  "random_uniform table_jax (key (two_particles (0, 1))) < epsilon exploring_config \<and>
   (0::nat) < length [- 1, 1 :: int] \<and> (1::nat) < length [- 1, 1 :: int] \<and>
   update_spin table_jax exploring_config (two_particles (0, 1)) 0 [- 1, 1]
     (table_state (0, 1)) (epsilon exploring_config) = Inr 1 \<and>
   update_spin table_jax exploring_config (two_particles (0, 1)) 1 [- 1, 1]
     (table_state (0, 1)) (epsilon exploring_config) = Inr (- 1)"
proof -
  have u: "random_uniform table_jax (key (two_particles (0, 1))) < epsilon exploring_config"
    by (simp add: ex_defs)
  have l0: "(0::nat) < length [- 1, 1 :: int]" and l1: "(1::nat) < length [- 1, 1 :: int]"
    by simp_all
  show ?thesis
    using u l0 l1
      update_spin_exploration_always_flips [OF u l0, of exploring_config "table_state (0, 1)"]
      update_spin_exploration_always_flips [OF u l1, of exploring_config "table_state (0, 1)"]
    by simp
qed

text \<open>
  Claim C2 (which estimate \<open>update_Q\<close> adjusts).  The claim, like the update rule of
  the notebook's introduction for \<open>Q[S, a(t)]\<close>, asks for the estimate of the action
  chosen in the cost computation.  \<open>update_Q\<close> is not given that action: it takes the
  \<open>argmin\<close> of the current estimates again.  When the exploration test passes, the cost
  computation flips the spin (action 1) whatever the estimates are, while \<open>update_Q\<close>
  writes the cost into the target entry of the \<open>argmin\<close>, which is entry 0 (keep)
  whenever keep has a least estimate.  Every other entry of the target, then also that of
  the action taken, keeps its current estimate, and the new state is one optimiser step on
  the mean squared error against this target.
\<close>

theorem update_Q_retakes_argmin_after_exploration:
  assumes "well_formed cfg G" and "i < nat (N cfg)"
    and "random_uniform J (key G) < epsilon cfg"
  shows "update_spin J cfg G i (spins G) (state G) (epsilon cfg) = Inr (- spins G ! i) \<and>
         (\<exists>state_input q_values action target.
            update_Q_target cfg G i (state G) cost
              = Inr (state_input, q_values, action, target) \<and>
            q_values = apply_fn (state G) (params (state G)) state_input \<and>
            action < length q_values \<and>
            (\<forall>b < length q_values. q_values ! action \<le> q_values ! b) \<and>
            ((\<forall>b < length q_values. q_values ! 0 \<le> q_values ! b) \<longrightarrow> action = 0) \<and>
            target ! action = real_of_int cost \<and>
            (\<forall>b. b \<noteq> action \<longrightarrow> target ! b = q_values ! b) \<and>
            update_Q J cfg G i (state G) cost
              = Inr (apply_gradients J (state G)
                  (grad J (\<lambda>ps. squared_error (apply_fn (state G) ps state_input) target)
                     (params (state G)))))"
proof -
  from assms(1,2) have len: "i < length (positions G)" "length (spins G) = length (positions G)"
    "i < length (spins G)" and q: "\<forall>ps x. apply_fn (state G) ps x \<noteq> []"
    by (simp_all add: well_formed_def)
  from update_Q_target_in_range [OF len(1,2) q, of cfg cost]
  obtain nb where nb: "get_neighbors cfg i (positions G) (spins G) = Inr nb"
    and tg: "update_Q_target cfg G i (state G) cost =
      (let state_input = [spins G ! i, sgn (sum_list nb)];
           q_values = apply_fn (state G) (params (state G)) state_input;
           action = argmin_index q_values
       in Inr (state_input, q_values, action, q_values[action := real_of_int cost]))"
    by blast
  let ?si = "[spins G ! i, sgn (sum_list nb)]"
  let ?q = "apply_fn (state G) (params (state G)) ?si"
  let ?a = "argmin_index ?q"
  let ?t = "?q[?a := real_of_int cost]"
  from q have ne: "?q \<noteq> []" by blast
  then have a: "?a < length ?q"
    and least: "\<forall>b < length ?q. ?q ! ?a \<le> ?q ! b"
    by (simp_all add: argmin_index_less argmin_index_least)
  have zero: "?a = 0" if "\<forall>b < length ?q. ?q ! 0 \<le> ?q ! b"
  proof (rule ccontr)
    assume "?a \<noteq> 0"
    then have "0 < ?a" by simp
    then have lt: "?q ! ?a < ?q ! 0" by (simp add: argmin_index_first)
    from that have "?a < length ?q \<longrightarrow> ?q ! 0 \<le> ?q ! ?a" by (rule spec)
    with a have "?q ! 0 \<le> ?q ! ?a" by (rule mp [rotated])
    with lt show False by simp
  qed
  then have zero': "(\<forall>b < length ?q. ?q ! 0 \<le> ?q ! b) \<longrightarrow> ?a = 0" by (rule impI)
  have t1: "?t ! ?a = real_of_int cost" using a by simp
  have t2: "\<forall>b. b \<noteq> ?a \<longrightarrow> ?t ! b = ?q ! b" by simp
  have sp: "update_spin J cfg G i (spins G) (state G) (epsilon cfg) = Inr (- spins G ! i)"
    using assms(3) len(3) by (rule update_spin_explore)
  have tg': "update_Q_target cfg G i (state G) cost = Inr (?si, ?q, ?a, ?t)"
    using tg by (simp add: Let_def)
  have uq: "update_Q J cfg G i (state G) cost
              = Inr (apply_gradients J (state G)
                  (grad J (\<lambda>ps. squared_error (apply_fn (state G) ps ?si) ?t) (params (state G))))"
    using tg' by (simp add: update_Q_def Let_def)
  show ?thesis
    apply (rule conjI [OF sp])
    apply (rule exI [of _ ?si], rule exI [of _ ?q], rule exI [of _ ?a], rule exI [of _ ?t])
    apply (intro conjI)
           apply (rule tg')
          apply (rule refl)
         apply (rule a)
        apply (rule least)
       apply (rule zero')
      apply (rule t1)
     apply (rule t2)
    apply (rule uq)
    done
qed

text \<open>
  Estimates \<open>[0, 1]\<close> and \<open>epsilon = 1\<close>: the cost computation flips spin 0 at cost 1,
  and the target of \<open>update_Q\<close> is \<open>[1, 1]\<close>: the cost is written to the estimate of
  keep, the estimate of flip is left as it is.
\<close>

theorem update_Q_retakes_argmin_after_exploration_witness:
  "well_formed exploring_config (two_particles (0, 1)) \<and> 0 < nat (N exploring_config) \<and>
   random_uniform table_jax (key (two_particles (0, 1))) < epsilon exploring_config \<and>
   spins (two_particles (0, 1)) ! 0 = - 1 \<and>
   update_spin table_jax exploring_config (two_particles (0, 1)) 0
     (spins (two_particles (0, 1))) (state (two_particles (0, 1)))
     (epsilon exploring_config) = Inr 1 \<and>
   cost_function table_jax exploring_config (two_particles (0, 1)) 0
     (positions (two_particles (0, 1))) (spins (two_particles (0, 1))) = Inr 1 \<and>
   update_Q_target exploring_config (two_particles (0, 1)) 0
     (state (two_particles (0, 1))) 1 = Inr ([- 1, 0], [0, 1], 0, [1, 1])"
proof -
  have wf: "well_formed exploring_config (two_particles (0, 1))"
    by (rule well_formed_exploring)
  have i: "0 < nat (N exploring_config)" by (simp add: ex_defs)
  have u: "random_uniform table_jax (key (two_particles (0, 1))) < epsilon exploring_config"
    by (simp add: ex_defs)
  have s: "spins (two_particles (0, 1)) ! 0 = - 1"
    by (simp add: two_particles_def)
  from update_Q_retakes_argmin_after_exploration [OF wf i u, of 1]
  have "update_spin table_jax exploring_config (two_particles (0, 1)) 0
     (spins (two_particles (0, 1))) (state (two_particles (0, 1)))
     (epsilon exploring_config) = Inr (- spins (two_particles (0, 1)) ! 0)"
    by blast
  with s have sp: "update_spin table_jax exploring_config (two_particles (0, 1)) 0
     (spins (two_particles (0, 1))) (state (two_particles (0, 1)))
     (epsilon exploring_config) = Inr 1"
    by simp
  have c: "cost_function table_jax exploring_config (two_particles (0, 1)) 0
     (positions (two_particles (0, 1))) (spins (two_particles (0, 1))) = Inr 1"
    by (simp add: ex_defs fn_defs)
  have t: "update_Q_target exploring_config (two_particles (0, 1)) 0
     (state (two_particles (0, 1))) 1 = Inr ([- 1, 0], [0, 1], 0, [1, 1])"
    by (simp add: ex_defs fn_defs)
  show ?thesis
    by (intro conjI wf i u s sp c t)
qed

text \<open>
  Claim C3 (neighbour query).  As stated the claim fails: the end points of the interval
  are computed in float32.  Take the positions \<open>1.1f\<close> and \<open>0.1f\<close> (the float32 values
  of 1.1 and 0.1) and \<open>delta_x = 1\<close>.  The exact sum \<open>0.1f + 1\<close> lies below \<open>1.1f\<close>,
  so particle 0 is outside the closed interval around particle 1; the float32 sum is
  \<open>1.1f\<close> itself, and \<open>get_neighbors\<close> returns both spins.
\<close>

theorem get_neighbors_interval_ends_are_rounded:
  "get_neighbors paper_config 1 [fl32 (11 / 10), fl32 (1 / 10)] [1, - 1] = Inr [1, - 1] \<and>
   closed_interval_neighbors paper_config 1 [fl32 (11 / 10), fl32 (1 / 10)] [1, - 1] = [- 1] \<and>
   fl32 (11 / 10) = 9227469 / 8388608 \<and> fl32 (1 / 10) = 13421773 / 134217728 \<and>
   delta_x paper_config = 1 \<and>
   fl32 (1 / 10) + delta_x paper_config < fl32 (11 / 10) \<and>
   fl32 (fl32 (1 / 10) + delta_x paper_config) = fl32 (11 / 10)"
  by (simp add: get_neighbors_def closed_interval_neighbors_def mask_select_def at_get_def
        paper_config_def fl32_eval upt_conv_Cons)

text \<open>
  Claim C3, amended.  For an index in range and arrays of one length,
  \<open>get_neighbors\<close> returns, in index order, the spins of exactly the particles whose
  position lies between \<open>fl32 (pos ! i - delta_x)\<close> and \<open>fl32 (pos ! i + delta_x)\<close>,
  both included.  Particle \<open>i\<close> is among them when the radius is not negative and its
  position is a float32 value, because rounding is monotone.  When the two end points
  need no rounding, the result is that of the closed interval of the claim.  The domain
  length \<open>L\<close> plays no part: nothing is wrapped.  The function returns a new list; its
  arguments are values and are not changed.
\<close>

theorem get_neighbors_rounded_interval:
  assumes "i < length pos" and "length sp = length pos"
  shows "get_neighbors cfg i pos sp
           = Inr (map (\<lambda>j. sp ! j)
                   (filter (\<lambda>j. fl32 (pos ! i - delta_x cfg) \<le> pos ! j \<and>
                                pos ! j \<le> fl32 (pos ! i + delta_x cfg))
                      [0..<length pos])) \<and>
         (0 \<le> delta_x cfg \<and> fl32 (pos ! i) = pos ! i \<longrightarrow>
            i \<in> set (filter (\<lambda>j. fl32 (pos ! i - delta_x cfg) \<le> pos ! j \<and>
                                 pos ! j \<le> fl32 (pos ! i + delta_x cfg))
                       [0..<length pos])) \<and>
         (fl32 (pos ! i - delta_x cfg) = pos ! i - delta_x cfg \<and>
          fl32 (pos ! i + delta_x cfg) = pos ! i + delta_x cfg \<longrightarrow>
            get_neighbors cfg i pos sp = Inr (closed_interval_neighbors cfg i pos sp)) \<and>
         get_neighbors (cfg\<lparr>L := l\<rparr>) i pos sp = get_neighbors cfg i pos sp"
proof -
  have own: "fl32 (pos ! i - delta_x cfg) \<le> pos ! i \<and> pos ! i \<le> fl32 (pos ! i + delta_x cfg)"
    if "0 \<le> delta_x cfg" and "fl32 (pos ! i) = pos ! i"
  proof -
    from that(1) have "fl32 (pos ! i - delta_x cfg) \<le> fl32 (pos ! i)"
      and "fl32 (pos ! i) \<le> fl32 (pos ! i + delta_x cfg)"
      by (simp_all add: fl32_mono)
    with that(2) show ?thesis by simp
  qed
  from assms show ?thesis
    by (simp add: get_neighbors_in_range closed_interval_neighbors_def own)
qed

text \<open>
  Positions \<open>1/2, 39/4, 3/2\<close> with \<open>delta_x = 1\<close> and \<open>L = 10\<close>, where no end point
  is rounded: the neighbours of particle 0 are particles 0 and 2, the latter on the right
  end point \<open>3/2\<close>, and those of particle 2 are particles 0 and 2, the former on the left
  end point \<open>1/2\<close>.  Particle 1, at periodic distance \<open>3/4\<close> from particle 0, is not a
  neighbour of it.
\<close>

theorem get_neighbors_rounded_interval_witness:
  "(0::nat) < length [1 / 2, 39 / 4, 3 / 2 :: real] \<and>
   length [1, - 1, - 1 :: int] = length [1 / 2, 39 / 4, 3 / 2 :: real] \<and>
   0 \<le> delta_x paper_config \<and> L paper_config = 10 \<and>
   fl32 ([1 / 2, 39 / 4, 3 / 2] ! 0) = [1 / 2, 39 / 4, 3 / 2] ! 0 \<and>
   fl32 ([1 / 2, 39 / 4, 3 / 2] ! 0 - delta_x paper_config)
     = [1 / 2, 39 / 4, 3 / 2] ! 0 - delta_x paper_config \<and>
   fl32 ([1 / 2, 39 / 4, 3 / 2] ! 0 + delta_x paper_config)
     = [1 / 2, 39 / 4, 3 / 2] ! 0 + delta_x paper_config \<and>
   get_neighbors paper_config 0 [1 / 2, 39 / 4, 3 / 2] [1, - 1, - 1] = Inr [1, - 1] \<and>
   get_neighbors paper_config 2 [1 / 2, 39 / 4, 3 / 2] [1, - 1, - 1] = Inr [1, - 1] \<and>
   closed_interval_neighbors paper_config 0 [1 / 2, 39 / 4, 3 / 2] [1, - 1, - 1] = [1, - 1] \<and>
   filter (\<lambda>j. fl32 ([1 / 2, 39 / 4, 3 / 2 :: real] ! 0 - delta_x paper_config)
                 \<le> [1 / 2, 39 / 4, 3 / 2] ! j \<and>
               [1 / 2, 39 / 4, 3 / 2] ! j
                 \<le> fl32 ([1 / 2, 39 / 4, 3 / 2] ! 0 + delta_x paper_config))
      [0..<length [1 / 2, 39 / 4, 3 / 2 :: real]] = [0, 2]"
proof -
  have i: "(0::nat) < length [1 / 2, 39 / 4, 3 / 2 :: real]"
    and i1: "(2::nat) < length [1 / 2, 39 / 4, 3 / 2 :: real]"
    and len: "length [1, - 1, - 1 :: int] = length [1 / 2, 39 / 4, 3 / 2 :: real]"
    by simp_all
  have idx: "[0..<length [1 / 2, 39 / 4, 3 / 2 :: real]] = [0, 1, 2]"
    by (simp add: upt_conv_Cons)
  have d: "delta_x paper_config = 1" and l: "L paper_config = 10"
    by (simp_all add: paper_config_def)
  have f: "fl32 (1 / 2) = 1 / 2" "fl32 (- (1 / 2)) = - (1 / 2)" "fl32 (3 / 2) = 3 / 2"
    "fl32 (5 / 2) = 5 / 2"
    by (simp_all add: fl32_eval)
  show ?thesis
    using get_neighbors_rounded_interval [OF i len, of paper_config 10]
      get_neighbors_rounded_interval [OF i1 len, of paper_config 10]
    by (simp add: idx d l f closed_interval_neighbors_def)
qed

text \<open>
  Claim C4 (cost signal).  In a well-formed state the cost of particle \<open>i\<close> is 1 when
  fewer positions lie within \<open>delta_x\<close> of the candidate position, counted in the
  array with the candidate position written at \<open>i\<close>, than lay within \<open>delta_x\<close> of
  the old position, and 0 otherwise.  The candidate position is the float32 value of
  \<open>positions[i] + velocities[i] * spins[i] * delta_t\<close>, evaluated from left to right
  with the old spin; the candidate spin does not enter the cost, because the neighbour
  count depends on positions only.  The third assumption keeps the product, the
  displacement and the candidate position within the finite float32 values.
\<close>

theorem cost_function_uses_old_spin:
  assumes "well_formed cfg G" and "i < nat (N cfg)"
    and "let a = fl32 (velocities G ! i * fl32 (real_of_int (spins G ! i)));
             b = fl32 (a * delta_t cfg)
         in finite32 a \<and> finite32 b \<and> finite32 (fl32 (positions G ! i + b))"
  shows "cost_function J cfg G i (positions G) (spins G) =
           Inr (let x = positions G ! i;
                    x' = fl32 (x + fl32 (fl32 (velocities G ! i * fl32 (real_of_int (spins G ! i)))
                                           * delta_t cfg))
                in if interval_count cfg x' ((positions G)[i := x'])
                      < interval_count cfg x (positions G) then 1 else 0)"
  using assms(1,2) by (rule cost_function_in_range)

text \<open>
  Positions \<open>1.1f\<close> and \<open>0.1f\<close>; particle 1 has spin \<open>-1\<close> and the exploring selection
  proposes \<open>+1\<close>.  The cost is 1: moved with the old spin to about 0.05, the particle
  loses the neighbour at \<open>1.1f\<close>, which it had through the rounding of \<open>0.1f + 1\<close>;
  moved with the candidate spin to about 0.15 it would have kept it.
\<close>

theorem cost_function_uses_old_spin_witness:
  "well_formed rounding_config rounding_particles \<and> 1 < nat (N rounding_config) \<and>
   finite32 (fl32 (velocities rounding_particles ! 1
      * fl32 (real_of_int (spins rounding_particles ! 1)))) \<and>
   finite32 (fl32 (fl32 (velocities rounding_particles ! 1
      * fl32 (real_of_int (spins rounding_particles ! 1))) * delta_t rounding_config)) \<and>
   finite32 (fl32 (positions rounding_particles ! 1
      + fl32 (fl32 (velocities rounding_particles ! 1
          * fl32 (real_of_int (spins rounding_particles ! 1))) * delta_t rounding_config))) \<and>
   spins rounding_particles ! 1 = - 1 \<and>
   update_spin table_jax rounding_config rounding_particles 1
     (spins rounding_particles) (state rounding_particles) (epsilon rounding_config) = Inr 1 \<and>
   cost_function table_jax rounding_config rounding_particles 1
     (positions rounding_particles) (spins rounding_particles) = Inr 1 \<and>
   interval_count rounding_config (fl32 (1 / 10)) [fl32 (11 / 10), fl32 (1 / 10)] = 2 \<and>
   fl32 (fl32 (1 / 10) + fl32 (fl32 (1 / 2 * fl32 (real_of_int (- 1))) * fl32 (1 / 10)))
     = 13421773 / 268435456 \<and>
   interval_count rounding_config (13421773 / 268435456) [fl32 (11 / 10), 13421773 / 268435456] = 1 \<and>
   fl32 (fl32 (1 / 10) + fl32 (fl32 (1 / 2 * fl32 (real_of_int 1)) * fl32 (1 / 10)))
     = 5033165 / 33554432 \<and>
   interval_count rounding_config (5033165 / 33554432) [fl32 (11 / 10), 5033165 / 33554432] = 2"
proof -
  have wf: "well_formed rounding_config rounding_particles"
    by (simp add: well_formed_def rounding_config_def rounding_particles_def ex_defs)
  have i: "1 < nat (N rounding_config)" by (simp add: rounding_config_def)
  have v: "velocities rounding_particles ! 1 = 1 / 2" "spins rounding_particles ! 1 = - 1"
    "positions rounding_particles ! 1 = fl32 (1 / 10)"
    "delta_t rounding_config = fl32 (1 / 10)"
    by (simp_all add: rounding_particles_def rounding_config_def paper_config_def)
  have x1: "fl32 (fl32 (1 / 10) + fl32 (fl32 (1 / 2 * fl32 (real_of_int (- 1))) * fl32 (1 / 10)))
     = 13421773 / 268435456"
    and x2: "fl32 (fl32 (1 / 10) + fl32 (fl32 (1 / 2 * fl32 (real_of_int 1)) * fl32 (1 / 10)))
     = 5033165 / 33554432"
    by (simp_all add: fl32_eval)
  have fin: "finite32 (fl32 (1 / 2 * fl32 (real_of_int (- 1))))"
    "finite32 (fl32 (fl32 (1 / 2 * fl32 (real_of_int (- 1))) * fl32 (1 / 10)))"
    "finite32 (fl32 (fl32 (1 / 10) + fl32 (fl32 (1 / 2 * fl32 (real_of_int (- 1))) * fl32 (1 / 10))))"
    by (simp_all add: finite32_def float32_max_def fl32_eval)
  have g: "let a = fl32 (velocities rounding_particles ! 1
                 * fl32 (real_of_int (spins rounding_particles ! 1)));
               b = fl32 (a * delta_t rounding_config)
           in finite32 a \<and> finite32 b \<and> finite32 (fl32 (positions rounding_particles ! 1 + b))"
    unfolding Let_def v using fin by (intro conjI)
  have sp: "update_spin table_jax rounding_config rounding_particles 1
     (spins rounding_particles) (state rounding_particles) (epsilon rounding_config) = Inr 1"
    by (simp add: rounding_config_def rounding_particles_def ex_defs fn_defs)
  have c: "interval_count rounding_config (fl32 (1 / 10)) [fl32 (11 / 10), fl32 (1 / 10)] = 2"
    "interval_count rounding_config (13421773 / 268435456) [fl32 (11 / 10), 13421773 / 268435456] = 1"
    "interval_count rounding_config (5033165 / 33554432) [fl32 (11 / 10), 5033165 / 33554432] = 2"
    by (simp_all add: interval_count_def rounding_config_def paper_config_def fl32_eval)
  have cst: "cost_function table_jax rounding_config rounding_particles 1
     (positions rounding_particles) (spins rounding_particles) = Inr 1"
    using cost_function_uses_old_spin [OF wf i g, of table_jax]
    by (simp add: Let_def rounding_particles_def rounding_config_def paper_config_def
          interval_count_def fl32_eval)
  from g [unfolded Let_def]
  have f1: "finite32 (fl32 (velocities rounding_particles ! 1
      * fl32 (real_of_int (spins rounding_particles ! 1))))"
    and f2: "finite32 (fl32 (fl32 (velocities rounding_particles ! 1
      * fl32 (real_of_int (spins rounding_particles ! 1))) * delta_t rounding_config))"
    and f3: "finite32 (fl32 (positions rounding_particles ! 1
      + fl32 (fl32 (velocities rounding_particles ! 1
          * fl32 (real_of_int (spins rounding_particles ! 1))) * delta_t rounding_config)))"
    by blast+
  show ?thesis
    by (intro conjI wf i f1 f2 f3 v(2) sp cst c x1 x2)
qed

text \<open>
  Claim C5 (spin invariant).  Provided \<open>jax.random.choice\<close> returns elements of the
  array it is given, the spins after the set-up and after any number \<open>k\<close> of particle
  updates of the run contain only \<open>-1\<close> and \<open>+1\<close>.  The run itself is the prefix of
  length \<open>num_steps * N\<close>, and every shorter prefix of a run that returns a state returns
  one too (\<open>run_prefix_earlier\<close>).
\<close>

theorem spins_stay_plus_or_minus_one:
  assumes "\<And>k xs n. xs \<noteq> [] \<Longrightarrow> set (random_choice J k xs n) \<subseteq> set xs"
    and "initialise J cfg seed = Inr G0"
    and "run_prefix J cfg num_steps k G0 = Inr G"
  shows "set (spins G0) \<subseteq> {- 1, 1} \<and> set (spins G) \<subseteq> {- 1, 1} \<and>
         run J cfg seed num_steps = run_prefix J cfg num_steps (num_steps * nat (N cfg)) G0"
proof -
  from assms(2) have "0 \<le> N cfg" and "0 < num_actions cfg"
    by (rule initialise_Inr_nonneg)+
  with assms(2) have "spins G0 = random_choice J (PRNGKey J seed) [- 1, 1] (nat (N cfg))"
    by (auto simp: initialise_eq)
  with assms(1) [of "[- 1, 1]" "PRNGKey J seed" "nat (N cfg)"]
  have G0: "set (spins G0) \<subseteq> {- 1, 1}" by auto
  with assms(3) have "set (spins G) \<subseteq> {- 1, 1}" by (rule run_prefix_spins)
  with G0 run_as_prefix [OF assms(2), of num_steps] show ?thesis
    by simp
qed

theorem spins_stay_plus_or_minus_one_witness:
  "initialise table_jax two_config 0 = Inr two_initial \<and>
   run_prefix table_jax two_config 1 2 two_initial = Inr two_after_sweep \<and>
   run table_jax two_config 0 1 = Inr two_after_sweep \<and>
   spins two_initial = [- 1, 1] \<and> spins two_after_sweep = [- 1, 1] \<and>
   set (spins two_after_sweep) \<subseteq> {- 1, 1}"
proof -
  have c: "\<And>k xs n. xs \<noteq> [] \<Longrightarrow> set (random_choice table_jax k xs n) \<subseteq> set xs"
    by (rule table_jax_choice)
  note th = spins_stay_plus_or_minus_one [OF c initialise_two_config sweep_two_initial]
  from th have t: "set (spins two_after_sweep) \<subseteq> {- 1, 1}" by simp
  have n: "1 * nat (N two_config) = 2"
    by (simp add: two_config_def paper_config_def)
  from th have "run table_jax two_config 0 1
      = run_prefix table_jax two_config 1 (1 * nat (N two_config)) two_initial"
    by blast
  then have r: "run table_jax two_config 0 1 = Inr two_after_sweep"
    by (simp only: n sweep_two_initial)
  have s0: "spins two_initial = [- 1, 1]"
    by (simp add: two_initial_def)
  have s1: "spins two_after_sweep = [- 1, 1]"
    by (simp add: two_after_sweep_def)
  show ?thesis
    by (intro conjI initialise_two_config sweep_two_initial r s0 s1 t)
qed

text \<open>
  Claim C7 (rejection of invalid configurations).  As stated the claim fails: the notebook
  has no check of its parameters.  With \<open>delta_t = -1/8\<close>, outside the documented
  domain, the set-up succeeds and one sweep performs its two particle updates and moves
  both particles.
\<close>

theorem invalid_delta_t_not_rejected:
  "\<not> documented_domain negative_step_config \<and>
   delta_t negative_step_config = - (1 / 8) \<and>
   map_sum id positions (initialise table_jax negative_step_config 0) = Inr [0, 5] \<and>
   map_sum id positions (run table_jax negative_step_config 0 1) = Inr [1 / 64, 631 / 128] \<and>
   map_sum id (\<lambda>G. step (state G)) (run table_jax negative_step_config 0 1) = Inr 2"
  by (simp add: documented_domain_def run_def initialise_def simulation_loop_def sweep_def
        ex_defs2 fn_defs upt_conv_Cons power2_eq_square)

text \<open>
  Claim C7, amended.  The set-up fails, before any particle update, in the two cases
  that the libraries refuse: a negative \<open>N\<close> (the shape of the first array draw) and
  \<open>num_actions \<le> 0\<close> (the output layer of the network).  For every other
  configuration, whatever the values of \<open>L\<close>, \<open>delta_x\<close>, \<open>v1\<close>, \<open>v2\<close>,
  \<open>alpha\<close>, \<open>epsilon\<close> and \<open>delta_t\<close>, the set-up succeeds with the step counter
  of the training state at 0, and the run returns with the counter at
  \<open>num_steps * N\<close>: every particle update of every sweep has been performed.  The
  libraries are taken to return arrays of the requested length and a network with
  \<open>num_actions\<close> outputs.
\<close>

theorem run_has_no_parameter_check:
  "(N cfg < 0 \<or> num_actions cfg \<le> 0 \<longrightarrow>
      initialise J cfg seed = Inl ShapeError \<and>
      run J cfg seed num_steps = Inl ShapeError) \<and>
   (library_contract J cfg \<and> 0 \<le> N cfg \<and> 0 < num_actions cfg \<longrightarrow>
      (\<exists>G0 G. initialise J cfg seed = Inr G0 \<and> step (state G0) = 0 \<and>
         run J cfg seed num_steps = Inr G \<and>
         step (state G) = num_steps * nat (N cfg)))"
proof (intro conjI impI)
  assume "N cfg < 0 \<or> num_actions cfg \<le> 0"
  then show "initialise J cfg seed = Inl ShapeError"
    by (rule initialise_rejected)
  then show "run J cfg seed num_steps = Inl ShapeError"
    by (simp add: run_def)
next
  assume a: "library_contract J cfg \<and> 0 \<le> N cfg \<and> 0 < num_actions cfg"
  then have c: "library_contract J cfg" and n: "0 \<le> N cfg" and m: "0 < num_actions cfg"
    by simp_all
  from initialise_well_formed [OF c n m, of seed]
  obtain G0 where G0: "initialise J cfg seed = Inr G0" by blast
  from G0 have s0: "step (state G0) = 0"
    by (auto simp: initialise_eq [OF n m])
  from run_total [OF c n m, of seed num_steps]
  obtain G where G: "run J cfg seed num_steps = Inr G" by blast
  from run_as_prefix [OF G0, of num_steps] G
  have "for_each (particle_update J cfg)
          (take (num_steps * nat (N cfg)) (schedule cfg num_steps)) G0 = Inr G"
    by (simp add: run_prefix_def)
  from for_each_steps [OF this] s0 have "step (state G) = num_steps * nat (N cfg)"
    by (simp add: length_schedule)
  with G0 s0 G
  show "\<exists>G0 G. initialise J cfg seed = Inr G0 \<and> step (state G0) = 0 \<and>
               run J cfg seed num_steps = Inr G \<and>
               step (state G) = num_steps * nat (N cfg)"
    by blast
qed

text \<open>
  A particle count of \<open>-1\<close> and a network without outputs are refused; a negative time
  step is not, and the hundred sweeps over two particles make 200 updates.
\<close>

theorem run_has_no_parameter_check_witness:
  "N negative_count_config < 0 \<and>
   run table_jax negative_count_config 0 100 = Inl ShapeError \<and>
   num_actions no_action_config \<le> 0 \<and>
   run table_jax no_action_config 0 100 = Inl ShapeError \<and>
   library_contract table_jax negative_step_config \<and>
   0 \<le> N negative_step_config \<and> 0 < num_actions negative_step_config \<and>
   delta_t negative_step_config \<le> 0 \<and>
   (\<exists>G. run table_jax negative_step_config 0 100 = Inr G \<and> step (state G) = 200)"
proof -
  have c1: "library_contract table_jax negative_step_config"
    by (simp add: library_contract_def table_jax_def negative_step_config_def two_config_def)
  have n: "N negative_count_config < 0"
    and a: "num_actions no_action_config \<le> 0"
    and p1: "0 \<le> N negative_step_config" and p2: "0 < num_actions negative_step_config"
    and d: "delta_t negative_step_config \<le> 0"
    and k: "100 * nat (N negative_step_config) = 200"
    by (simp_all add: negative_step_config_def negative_count_config_def no_action_config_def
          two_config_def)
  from run_has_no_parameter_check [of negative_count_config table_jax 0 100] n
  have r1: "run table_jax negative_count_config 0 100 = Inl ShapeError" by blast
  from run_has_no_parameter_check [of no_action_config table_jax 0 100] a
  have r2: "run table_jax no_action_config 0 100 = Inl ShapeError" by blast
  from run_has_no_parameter_check [of negative_step_config table_jax 0 100] c1 p1 p2
  have "\<exists>G. run table_jax negative_step_config 0 100 = Inr G \<and>
          step (state G) = 100 * nat (N negative_step_config)" by blast
  then have r3: "\<exists>G. run table_jax negative_step_config 0 100 = Inr G \<and> step (state G) = 200"
    by (simp only: k)
  show ?thesis
    by (intro conjI n r1 a r2 c1 p1 p2 d r3)
qed

text \<open>
  Claim C8 (empty neighbourhood).  In a well-formed state every particle update returns a
  state.  When the neighbour query of particle \<open>i\<close> is empty, the descriptor built by
  \<open>update_Q\<close> and by the greedy branch of \<open>update_spin\<close> is the own spin followed by
  0: the sum of no spins is 0 and its sign is 0.
\<close>

theorem empty_neighbourhood_has_sign_zero:
  assumes "well_formed cfg G" and "i < nat (N cfg)"
  shows "(\<exists>G'. particle_update J cfg G i = Inr G') \<and>
         (get_neighbors cfg i (positions G) (spins G) = Inr [] \<longrightarrow>
            update_Q_target cfg G i (state G) cost =
              (let q_values = apply_fn (state G) (params (state G)) [spins G ! i, 0];
                   action = argmin_index q_values
               in Inr ([spins G ! i, 0], q_values, action, q_values[action := real_of_int cost])) \<and>
            (\<not> random_uniform J (key G) < epsilon cfg \<longrightarrow>
               update_spin J cfg G i (spins G) (state G) (epsilon cfg) =
                 Inr (if argmin_index (apply_fn (state G) (params (state G)) [spins G ! i, 0]) = 0
                      then spins G ! i else - spins G ! i)))"
proof -
  from assms have len: "i < length (positions G)" "length (spins G) = length (positions G)"
    "i < length (spins G)" and q: "\<forall>ps x. apply_fn (state G) ps x \<noteq> []"
    by (simp_all add: well_formed_def)
  from particle_update_in_range [OF assms, where J = J]
  have total: "\<exists>G'. particle_update J cfg G i = Inr G'" by blast
  have "update_Q_target cfg G i (state G) cost =
          (let q_values = apply_fn (state G) (params (state G)) [spins G ! i, 0];
               action = argmin_index q_values
           in Inr ([spins G ! i, 0], q_values, action, q_values[action := real_of_int cost]))"
    if "get_neighbors cfg i (positions G) (spins G) = Inr []"
    using update_Q_target_in_range [OF len(1,2) q, of cfg cost] that by (auto simp: Let_def)
  moreover have "update_spin J cfg G i (spins G) (state G) (epsilon cfg) =
          Inr (if argmin_index (apply_fn (state G) (params (state G)) [spins G ! i, 0]) = 0
               then spins G ! i else - spins G ! i)"
    if "get_neighbors cfg i (positions G) (spins G) = Inr []"
      and "\<not> random_uniform J (key G) < epsilon cfg"
    using update_spin_greedy [OF that(2) len(3) len(2) q, of cfg] that(1) by simp
  ultimately show ?thesis using total by blast
qed

text \<open>
  With a negative interaction range no position lies in the interval, not even the
  particle's own.
\<close>

theorem empty_neighbourhood_has_sign_zero_witness:
  "well_formed isolated_config (two_particles (0, 1)) \<and> 0 < nat (N isolated_config) \<and>
   get_neighbors isolated_config 0 (positions (two_particles (0, 1)))
     (spins (two_particles (0, 1))) = Inr [] \<and>
   \<not> random_uniform table_jax (key (two_particles (0, 1))) < epsilon isolated_config \<and>
   (\<exists>G'. particle_update table_jax isolated_config (two_particles (0, 1)) 0 = Inr G') \<and>
   update_Q_target isolated_config (two_particles (0, 1)) 0
     (state (two_particles (0, 1))) 1 = Inr ([- 1, 0], [0, 1], 0, [1, 1]) \<and>
   update_spin table_jax isolated_config (two_particles (0, 1)) 0
     (spins (two_particles (0, 1))) (state (two_particles (0, 1)))
     (epsilon isolated_config) = Inr (- 1)"
proof -
  have wf: "well_formed isolated_config (two_particles (0, 1))"
    by (simp add: well_formed_def ex_defs2)
  have i: "0 < nat (N isolated_config)" by (simp add: ex_defs2)
  have e: "get_neighbors isolated_config 0 (positions (two_particles (0, 1)))
     (spins (two_particles (0, 1))) = Inr []"
    by (simp add: ex_defs2 fn_defs)
  have g: "\<not> random_uniform table_jax (key (two_particles (0, 1))) < epsilon isolated_config"
    by (simp add: ex_defs2)
  have q: "apply_fn (state (two_particles (0, 1)))
             (params (state (two_particles (0, 1)))) x = [0, 1]" for x
    by (simp add: ex_defs)
  have s: "spins (two_particles (0, 1)) ! 0 = - 1"
    by (simp add: two_particles_def)
  from empty_neighbourhood_has_sign_zero [OF wf i, of table_jax 1] e g
  show ?thesis
    using wf i by (simp add: q s Let_def)
qed

text \<open>
  Claim C9 (velocities are read-only).  After the set-up and any number \<open>k\<close> of particle
  updates of the run, \<open>velocities\<close> is still the array drawn once at set-up with bounds
  \<open>v1\<close> and \<open>v2\<close>; a further particle update of any particle \<open>i\<close> changes nothing
  but the training state, \<open>spins[i]\<close> and \<open>positions[i]\<close>.  The run is the prefix of
  length \<open>num_steps * N\<close>.
\<close>

theorem velocities_never_written:
  assumes "initialise J cfg seed = Inr G0"
    and "run_prefix J cfg num_steps k G0 = Inr G"
    and "particle_update J cfg G i = Inr G'"
  shows "velocities G = random_uniform_array J (PRNGKey J seed) (nat (N cfg)) (v1 cfg) (v2 cfg) \<and>
         velocities G' = velocities G \<and>
         (\<exists>st' s' p'. G' = G\<lparr>state := st', spins := (spins G)[i := s'],
                                positions := (positions G)[i := p']\<rparr>) \<and>
         run J cfg seed num_steps = run_prefix J cfg num_steps (num_steps * nat (N cfg)) G0"
proof -
  from assms(1) have "0 \<le> N cfg" and "0 < num_actions cfg"
    by (rule initialise_Inr_nonneg)+
  with assms(1) have
    "velocities G0 = random_uniform_array J (PRNGKey J seed) (nat (N cfg)) (v1 cfg) (v2 cfg)"
    by (auto simp: initialise_eq)
  moreover from run_prefix_frame [OF assms(2)] have "velocities G = velocities G0" by simp
  moreover from particle_update_frame [OF assms(3)] obtain st' s' p' where
    G': "G' = G\<lparr>state := st', spins := (spins G)[i := s'], positions := (positions G)[i := p']\<rparr>"
    by blast
  moreover from G' have "velocities G' = velocities G" by simp
  moreover note run_as_prefix [OF assms(1), of num_steps]
  ultimately show ?thesis by auto
qed

theorem velocities_never_written_witness:
  "initialise table_jax two_config 0 = Inr two_initial \<and>
   run_prefix table_jax two_config 1 1 two_initial = Inr two_after_first \<and>
   particle_update table_jax two_config two_after_first 1 = Inr two_after_sweep \<and>
   velocities two_after_first = [1 / 8, 9 / 16] \<and>
   velocities two_after_sweep = velocities two_after_first"
proof -
  from velocities_never_written
    [OF initialise_two_config run_prefix_two_initial second_update_two_initial]
  have v: "velocities two_after_sweep = velocities two_after_first" by simp
  have v0: "velocities two_after_first = [1 / 8, 9 / 16]"
    by (simp add: two_after_first_def two_initial_def)
  show ?thesis
    by (intro conjI initialise_two_config run_prefix_two_initial second_update_two_initial v0 v)
qed

text \<open>
  Claim C10 (one exploration decision for the whole run).  The key found after any number
  \<open>k\<close> of particle updates is the first half of the single split of the set-up, so the
  test \<open>jax.random.uniform(key) < epsilon\<close> has the value it had at the start, both for
  the selection inside \<open>cost_function\<close> and for the one made after \<open>update_Q\<close> has
  replaced the training state.  If it holds at the start, every selection of the run
  flips the spin it is asked about.  The run is the prefix of length \<open>num_steps * N\<close>.
\<close>

theorem exploration_test_is_run_wide_constant:
  assumes "initialise J cfg seed = Inr G0"
    and "run_prefix J cfg num_steps k G0 = Inr G"
  shows "key G = fst (random_split J (PRNGKey J seed)) \<and>
         (random_uniform J (key G) < epsilon cfg) = (random_uniform J (key G0) < epsilon cfg) \<and>
         (\<forall>st'. (random_uniform J (key (G\<lparr>state := st'\<rparr>)) < epsilon cfg)
                  = (random_uniform J (key G0) < epsilon cfg)) \<and>
         (random_uniform J (key G0) < epsilon cfg \<longrightarrow>
            (\<forall>j sp Q. j < length sp \<longrightarrow> update_spin J cfg G j sp Q (epsilon cfg) = Inr (- sp ! j))) \<and>
         run J cfg seed num_steps = run_prefix J cfg num_steps (num_steps * nat (N cfg)) G0"
proof -
  from assms(1) have "0 \<le> N cfg" and "0 < num_actions cfg"
    by (rule initialise_Inr_nonneg)+
  with assms(1) have k0: "key G0 = fst (random_split J (PRNGKey J seed))"
    by (auto simp: initialise_eq)
  from run_prefix_frame [OF assms(2)] have k: "key G = key G0" by simp
  have "update_spin J cfg G j sp Q (epsilon cfg) = Inr (- sp ! j)"
    if "random_uniform J (key G0) < epsilon cfg" and "j < length sp" for j sp Q
    using that k by (simp add: update_spin_explore)
  with k k0 run_as_prefix [OF assms(1), of num_steps] show ?thesis by simp
qed

theorem exploration_test_is_run_wide_constant_witness:
  "initialise table_jax exploring_config 0 = Inr two_initial \<and>
   run_prefix table_jax exploring_config 1 1 two_initial = Inr two_after_flip \<and>
   random_uniform table_jax (key two_initial) < epsilon exploring_config \<and>
   key two_after_flip = key two_initial \<and>
   (1::nat) < length (spins two_after_flip) \<and> spins two_after_flip ! 1 = 1 \<and>
   update_spin table_jax exploring_config two_after_flip 1 (spins two_after_flip)
     (state two_after_flip) (epsilon exploring_config) = Inr (- 1)"
proof -
  have u: "random_uniform table_jax (key two_initial) < epsilon exploring_config"
    by (simp add: ex_defs2)
  have l: "(1::nat) < length (spins two_after_flip)"
    and s1: "spins two_after_flip ! 1 = 1"
    by (simp_all add: two_after_flip_def)
  from exploration_test_is_run_wide_constant [OF initialise_exploring_config run_prefix_exploring]
  have k: "key two_after_flip = fst (random_split table_jax (PRNGKey table_jax 0))"
    and f: "\<forall>j sp Q. j < length sp \<longrightarrow>
      update_spin table_jax exploring_config two_after_flip j sp Q (epsilon exploring_config)
        = Inr (- sp ! j)"
    using u by blast+
  from k have k': "key two_after_flip = key two_initial"
    by (simp add: two_initial_def table_jax_def)
  from f l s1 have s: "update_spin table_jax exploring_config two_after_flip 1 (spins two_after_flip)
     (state two_after_flip) (epsilon exploring_config) = Inr (- 1)"
    by simp
  show ?thesis
    by (intro conjI initialise_exploring_config run_prefix_exploring u k' l s1 s)
qed

end
